theory Spec2Isabelle
  imports Complex_Main
begin

section \<open>YAR (src/yar/main.c): data model\<close>

text \<open>
  The C program keeps one \<open>GameState\<close> value and mutates it through a pointer; here every
  operation takes the state and returns the updated one. The two pools are C arrays of
  fixed size, modelled as lists that are read and written by index only; the predicate
  \<open>pools_ok\<close> says that they have the sizes the C type gives them.

  C \<open>float\<close> is modelled by \<open>real\<close>: rounding, infinities and NaN are outside the model.
  C \<open>int\<close> (the score) is modelled by \<open>int\<close>, and the one place where the program does
  arithmetic on it (\<open>score += 10\<close>) checks the range of a 32-bit \<open>int\<close>: signed overflow
  is undefined behaviour in C, and is the error \<open>SignedOverflow\<close> of the model.
\<close>

definition SCREEN_WIDTH :: int where "SCREEN_WIDTH = 800"

definition SCREEN_HEIGHT :: int where "SCREEN_HEIGHT = 600"

definition PLAYER_SPEED :: real where "PLAYER_SPEED = 200"

definition BULLET_SPEED :: real where "BULLET_SPEED = 400"

definition ENEMY_SPEED :: real where "ENEMY_SPEED = 100"

definition MAX_BULLETS :: nat where "MAX_BULLETS = 20"

definition MAX_ENEMIES :: nat where "MAX_ENEMIES = 10"

definition INT_MAX :: int where "INT_MAX = 2147483647"

datatype Color = BLUE | YELLOW | RED | OtherColor nat

record Vector2 =
  vec_x :: real
  vec_y :: real

record GameObject =
  position :: Vector2
  velocity :: Vector2
  radius :: real
  active :: bool
  color :: Color

record GameState =
  player :: GameObject
  bullets :: "GameObject list"
  enemies :: "GameObject list"
  score :: int
  gameOver :: bool

definition pools_ok :: "GameState \<Rightarrow> bool" where
  "pools_ok game \<longleftrightarrow>
     length (bullets game) = MAX_BULLETS \<and> length (enemies game) = MAX_ENEMIES"

datatype error = SignedOverflow

subsection \<open>The collaborators: random numbers and input\<close>

text \<open>
  Modelled from the spec: \<open>GetRandomValue\<close> is raylib's and not part of the sources; the
  spec asks for "a uniform integer generator over inclusive [0, dimension]". The raw
  generator is a sequence \<open>rnd\<close> of naturals given from outside and a cursor into it; a
  draw reduces the raw value into the inclusive range and advances the cursor.
\<close>

definition GetRandomValue :: "(nat \<Rightarrow> nat) \<Rightarrow> int \<Rightarrow> int \<Rightarrow> nat \<Rightarrow> int \<times> nat" where
  "GetRandomValue rnd lo hi c = (lo + int (rnd c mod nat (hi - lo + 1)), Suc c)"

datatype Key =
  KEY_W | KEY_UP | KEY_S | KEY_DOWN | KEY_A | KEY_LEFT | KEY_D | KEY_RIGHT | KEY_R | KEY_ESCAPE

text \<open>What the window and input provider report during one frame.\<close>

record Input =
  IsKeyDown :: "Key \<Rightarrow> bool"
  IsKeyPressed :: "Key \<Rightarrow> bool"
  IsMouseButtonPressed_LEFT :: bool
  GetMousePosition :: Vector2
  GetFrameTime :: real
  WindowShouldClose :: bool

section \<open>The operations\<close>

subsection \<open>The counting loop\<close>

text \<open>
  Every loop of the program but one is \<^verbatim>\<open>for (int i = 0; i < n; i++) body\<close> with no
  \<open>break\<close>: \<open>for_loop i n body s\<close> runs the body for the indices from \<open>i\<close> up to
  \<open>n - 1\<close>, in ascending order. \<open>for_loop_err\<close> is the same loop for a body that can
  fail; the first failure ends it.
\<close>

function for_loop :: "nat \<Rightarrow> nat \<Rightarrow> (nat \<Rightarrow> 's \<Rightarrow> 's) \<Rightarrow> 's \<Rightarrow> 's" where
  "for_loop i n body s = (if i < n then for_loop (i + 1) n body (body i s) else s)"
  by pat_completeness auto
termination
  by (relation "measure (\<lambda>(i, n, body, s). n - i)") auto

function for_loop_err ::
  "nat \<Rightarrow> nat \<Rightarrow> (nat \<Rightarrow> 's \<Rightarrow> error + 's) \<Rightarrow> 's \<Rightarrow> error + 's" where
  "for_loop_err i n body s =
     (if i < n then
        (case body i s of
           Inl e \<Rightarrow> Inl e
         | Inr s' \<Rightarrow> for_loop_err (i + 1) n body s')
      else Inr s)"
  by pat_completeness auto
termination
  by (relation "measure (\<lambda>(i, n, body, s). n - i)") auto

subsection \<open>InitGame\<close>

definition InitGame_bullet :: "nat \<Rightarrow> GameState \<Rightarrow> GameState" where
  "InitGame_bullet i game =
     game\<lparr>bullets := (bullets game)
       [i := (bullets game ! i)\<lparr>radius := 5, active := False, color := YELLOW\<rparr>]\<rparr>"

text \<open>
  The two draws of an enemy's position are the two members of one initialiser list; the
  model draws the x coordinate first.
\<close>

definition InitGame_enemy :: "(nat \<Rightarrow> nat) \<Rightarrow> nat \<Rightarrow> GameState \<times> nat \<Rightarrow> GameState \<times> nat" where
  "InitGame_enemy rnd i s =
     (let (game, c) = s;
          (rx, c1) = GetRandomValue rnd 0 SCREEN_WIDTH c;
          (ry, c2) = GetRandomValue rnd 0 SCREEN_HEIGHT c1
      in (game\<lparr>enemies := (enemies game)
            [i := (enemies game ! i)
               \<lparr>position := \<lparr>vec_x = real_of_int rx, vec_y = real_of_int ry\<rparr>,
                velocity := \<lparr>vec_x = 0, vec_y = 0\<rparr>,
                radius := 15, active := True, color := RED\<rparr>]\<rparr>, c2))"

definition InitGame :: "(nat \<Rightarrow> nat) \<Rightarrow> GameState \<times> nat \<Rightarrow> GameState \<times> nat" where
  "InitGame rnd s =
     (let (game, c) = s;
          game1 = game\<lparr>player := (player game)
            \<lparr>position := \<lparr>vec_x = real_of_int (SCREEN_WIDTH div 2),
                          vec_y = real_of_int (SCREEN_HEIGHT div 2)\<rparr>,
             velocity := \<lparr>vec_x = 0, vec_y = 0\<rparr>,
             radius := 20, active := True, color := BLUE\<rparr>\<rparr>;
          game2 = for_loop 0 MAX_BULLETS InitGame_bullet game1;
          (game3, c3) = for_loop 0 MAX_ENEMIES (InitGame_enemy rnd) (game2, c)
      in (game3\<lparr>score := 0, gameOver := False\<rparr>, c3))"

subsection \<open>UpdatePlayer\<close>

text \<open>The movement vector accumulated from the held keys: each key adds or subtracts 1.\<close>

definition accumulated_movement :: "Input \<Rightarrow> Vector2" where
  "accumulated_movement inp =
     (let my0 = (0 :: real);
          mx0 = (0 :: real);
          my1 = (if IsKeyDown inp KEY_W \<or> IsKeyDown inp KEY_UP then my0 - 1 else my0);
          my2 = (if IsKeyDown inp KEY_S \<or> IsKeyDown inp KEY_DOWN then my1 + 1 else my1);
          mx1 = (if IsKeyDown inp KEY_A \<or> IsKeyDown inp KEY_LEFT then mx0 - 1 else mx0);
          mx2 = (if IsKeyDown inp KEY_D \<or> IsKeyDown inp KEY_RIGHT then mx1 + 1 else mx1)
      in \<lparr>vec_x = mx2, vec_y = my2\<rparr>)"

text \<open>
  The two tests that keep one coordinate of the player on the screen, in the order the
  code makes them: first against \<open>radius\<close>, then against \<open>limit - radius\<close>.
\<close>

definition keep_on_screen :: "real \<Rightarrow> int \<Rightarrow> real \<Rightarrow> real" where
  "keep_on_screen r limit v =
     (let v1 = (if v < r then r else v)
      in if v1 > real_of_int limit - r then real_of_int limit - r else v1)"

definition UpdatePlayer :: "Input \<Rightarrow> GameState \<Rightarrow> real \<Rightarrow> GameState" where
  "UpdatePlayer inp game deltaTime =
     (let movement0 = accumulated_movement inp;
          movement =
            (if vec_x movement0 \<noteq> 0 \<and> vec_y movement0 \<noteq> 0
             then \<lparr>vec_x = vec_x movement0 * 0.707, vec_y = vec_y movement0 * 0.707\<rparr>
             else movement0);
          px = vec_x (position (player game)) + vec_x movement * PLAYER_SPEED * deltaTime;
          py = vec_y (position (player game)) + vec_y movement * PLAYER_SPEED * deltaTime;
          r = radius (player game)
      in game\<lparr>player := (player game)
           \<lparr>position := \<lparr>vec_x = keep_on_screen r SCREEN_WIDTH px,
                         vec_y = keep_on_screen r SCREEN_HEIGHT py\<rparr>\<rparr>\<rparr>)"

subsection \<open>FireBullet\<close>

text \<open>
  The length of a vector with the components \<open>dx\<close> and \<open>dy\<close>, as \<open>FireBullet\<close>,
  \<open>UpdateEnemies\<close> and both passes of \<open>CheckCollisions\<close> compute it.
\<close>

definition vector_length :: "real \<Rightarrow> real \<Rightarrow> real" where
  "vector_length dx dy = sqrt (dx * dx + dy * dy)"

text \<open>
  The direction from \<open>q\<close> to \<open>p\<close>, divided by its length when the length is positive.
  \<open>FireBullet\<close> and \<open>UpdateEnemies\<close> compute it in the same way.
\<close>

definition direction_to :: "Vector2 \<Rightarrow> Vector2 \<Rightarrow> Vector2" where
  "direction_to p q =
     (let dx = vec_x p - vec_x q;
          dy = vec_y p - vec_y q;
          len = vector_length dx dy
      in if len > 0 then \<lparr>vec_x = dx / len, vec_y = dy / len\<rparr> else \<lparr>vec_x = dx, vec_y = dy\<rparr>)"

text \<open>What the scan writes into the free slot it finds.\<close>

definition fired :: "Vector2 \<Rightarrow> GameState \<Rightarrow> GameObject \<Rightarrow> GameObject" where
  "fired direction game b =
     b\<lparr>position := position (player game),
       velocity := \<lparr>vec_x = vec_x direction * BULLET_SPEED, vec_y = vec_y direction * BULLET_SPEED\<rparr>,
       active := True\<rparr>"

text \<open>The scan for a free slot stops at the first inactive bullet (\<open>break\<close>).\<close>

function FireBullet_scan :: "Vector2 \<Rightarrow> nat \<Rightarrow> GameState \<Rightarrow> GameState" where
  "FireBullet_scan direction i game =
     (if i < MAX_BULLETS then
        (if \<not> active (bullets game ! i) then
           game\<lparr>bullets := (bullets game)[i := fired direction game (bullets game ! i)]\<rparr>
         else FireBullet_scan direction (i + 1) game)
      else game)"
  by pat_completeness auto
termination
  by (relation "measure (\<lambda>(direction, i, game). MAX_BULLETS - i)") auto

definition FireBullet :: "Input \<Rightarrow> GameState \<Rightarrow> GameState" where
  "FireBullet inp game =
     FireBullet_scan (direction_to (GetMousePosition inp) (position (player game))) 0 game"

subsection \<open>UpdateBullets\<close>

definition UpdateBullets_body :: "real \<Rightarrow> GameObject \<Rightarrow> GameObject" where
  "UpdateBullets_body deltaTime b =
     (if active b then
        (let b1 = b\<lparr>position := \<lparr>vec_x = vec_x (position b) + vec_x (velocity b) * deltaTime,
                                  vec_y = vec_y (position b) + vec_y (velocity b) * deltaTime\<rparr>\<rparr>
         in if vec_x (position b1) < 0 \<or> vec_x (position b1) > real_of_int SCREEN_WIDTH \<or>
               vec_y (position b1) < 0 \<or> vec_y (position b1) > real_of_int SCREEN_HEIGHT
            then b1\<lparr>active := False\<rparr> else b1)
      else b)"

definition UpdateBullets :: "GameState \<Rightarrow> real \<Rightarrow> GameState" where
  "UpdateBullets game deltaTime =
     for_loop 0 MAX_BULLETS
       (\<lambda>i g. g\<lparr>bullets := (bullets g)[i := UpdateBullets_body deltaTime (bullets g ! i)]\<rparr>)
       game"

subsection \<open>UpdateEnemies\<close>

definition UpdateEnemies_body :: "Vector2 \<Rightarrow> real \<Rightarrow> GameObject \<Rightarrow> GameObject" where
  "UpdateEnemies_body playerPos deltaTime e =
     (if active e then
        (let direction = direction_to playerPos (position e)
         in e\<lparr>position := \<lparr>vec_x = vec_x (position e) + vec_x direction * ENEMY_SPEED * deltaTime,
                             vec_y = vec_y (position e) + vec_y direction * ENEMY_SPEED * deltaTime\<rparr>\<rparr>)
      else e)"

definition UpdateEnemies :: "GameState \<Rightarrow> real \<Rightarrow> GameState" where
  "UpdateEnemies game deltaTime =
     for_loop 0 MAX_ENEMIES
       (\<lambda>i g. g\<lparr>enemies := (enemies g)
          [i := UpdateEnemies_body (position (player g)) deltaTime (enemies g ! i)]\<rparr>)
       game"

subsection \<open>CheckCollisions\<close>

text \<open>The distance of two centres and the test both collision passes make on it.\<close>

definition distance :: "Vector2 \<Rightarrow> Vector2 \<Rightarrow> real" where
  "distance p q = vector_length (vec_x p - vec_x q) (vec_y p - vec_y q)"

definition collides :: "GameObject \<Rightarrow> GameObject \<Rightarrow> bool" where
  "collides a b \<longleftrightarrow> distance (position a) (position b) < radius a + radius b"

text \<open>
  The respawn of enemy \<open>j\<close> at a random edge: the \<open>switch\<close> on the drawn edge, which has
  no default case.
\<close>

definition respawn_at_edge :: "(nat \<Rightarrow> nat) \<Rightarrow> nat \<Rightarrow> GameState \<times> nat \<Rightarrow> GameState \<times> nat" where
  "respawn_at_edge rnd j s =
     (let (game, c) = s;
          (edge, c1) = GetRandomValue rnd 0 3 c
      in if edge = 0 then
           (let (v, c2) = GetRandomValue rnd 0 SCREEN_WIDTH c1
            in (game\<lparr>enemies := (enemies game)
                  [j := (enemies game ! j)\<lparr>position := \<lparr>vec_x = real_of_int v, vec_y = - 50\<rparr>\<rparr>]\<rparr>, c2))
         else if edge = 1 then
           (let (v, c2) = GetRandomValue rnd 0 SCREEN_HEIGHT c1
            in (game\<lparr>enemies := (enemies game)
                  [j := (enemies game ! j)
                     \<lparr>position := \<lparr>vec_x = real_of_int (SCREEN_WIDTH + 50), vec_y = real_of_int v\<rparr>\<rparr>]\<rparr>, c2))
         else if edge = 2 then
           (let (v, c2) = GetRandomValue rnd 0 SCREEN_WIDTH c1
            in (game\<lparr>enemies := (enemies game)
                  [j := (enemies game ! j)
                     \<lparr>position := \<lparr>vec_x = real_of_int v, vec_y = real_of_int (SCREEN_HEIGHT + 50)\<rparr>\<rparr>]\<rparr>, c2))
         else if edge = 3 then
           (let (v, c2) = GetRandomValue rnd 0 SCREEN_HEIGHT c1
            in (game\<lparr>enemies := (enemies game)
                  [j := (enemies game ! j)\<lparr>position := \<lparr>vec_x = - 50, vec_y = real_of_int v\<rparr>\<rparr>]\<rparr>, c2))
         else (game, c1))"

text \<open>
  What the bullet-enemy pass does when bullet \<open>i\<close> and enemy \<open>j\<close> are closer than the sum
  of their radii (the body of the innermost \<open>if\<close>).
\<close>

definition bullet_hits_enemy ::
  "(nat \<Rightarrow> nat) \<Rightarrow> nat \<Rightarrow> nat \<Rightarrow> GameState \<times> nat \<Rightarrow> error + GameState \<times> nat" where
  "bullet_hits_enemy rnd i j s =
     (let (game, c) = s;
          game1 = game\<lparr>bullets := (bullets game)[i := (bullets game ! i)\<lparr>active := False\<rparr>]\<rparr>;
          game2 = game1\<lparr>enemies := (enemies game1)[j := (enemies game1 ! j)\<lparr>active := False\<rparr>]\<rparr>
      in if score game2 > INT_MAX - 10 then Inl SignedOverflow
         else
           (let game3 = game2\<lparr>score := score game2 + 10\<rparr>;
                (game4, c4) = respawn_at_edge rnd j (game3, c)
            in Inr (game4\<lparr>enemies := (enemies game4)[j := (enemies game4 ! j)\<lparr>active := True\<rparr>]\<rparr>, c4)))"

text \<open>
  The body of the inner loop, for bullet \<open>i\<close> and enemy \<open>j\<close>. The inner loop has no
  \<open>break\<close> and its body does not look at the bullet's \<open>active\<close> flag.
\<close>

definition CheckCollisions_enemy ::
  "(nat \<Rightarrow> nat) \<Rightarrow> nat \<Rightarrow> nat \<Rightarrow> GameState \<times> nat \<Rightarrow> error + GameState \<times> nat" where
  "CheckCollisions_enemy rnd i j s =
     (let (game, c) = s
      in if active (enemies game ! j) then
           (if collides (bullets game ! i) (enemies game ! j)
            then bullet_hits_enemy rnd i j (game, c)
            else Inr (game, c))
         else Inr (game, c))"

text \<open>The body of the outer loop, for bullet \<open>i\<close>.\<close>

definition CheckCollisions_bullet ::
  "(nat \<Rightarrow> nat) \<Rightarrow> nat \<Rightarrow> GameState \<times> nat \<Rightarrow> error + GameState \<times> nat" where
  "CheckCollisions_bullet rnd i s =
     (let (game, c) = s
      in if active (bullets game ! i)
         then for_loop_err 0 MAX_ENEMIES (CheckCollisions_enemy rnd i) (game, c)
         else Inr (game, c))"

text \<open>The body of the loop of the player-enemy pass.\<close>

definition CheckCollisions_player :: "nat \<Rightarrow> GameState \<Rightarrow> GameState" where
  "CheckCollisions_player i game =
     (if active (enemies game ! i) then
        (if collides (player game) (enemies game ! i) then game\<lparr>gameOver := True\<rparr> else game)
      else game)"

definition CheckCollisions :: "(nat \<Rightarrow> nat) \<Rightarrow> GameState \<times> nat \<Rightarrow> error + GameState \<times> nat" where
  "CheckCollisions rnd s =
     (case for_loop_err 0 MAX_BULLETS (CheckCollisions_bullet rnd) s of
        Inl e \<Rightarrow> Inl e
      | Inr (game, c) \<Rightarrow> Inr (for_loop 0 MAX_ENEMIES CheckCollisions_player game, c))"

subsection \<open>The frame loop of main\<close>

text \<open>
  One iteration of the \<open>while\<close> loop, without the drawing (which reads the state only).
  Besides the new state it returns the operations it has invoked, in order.
\<close>

datatype Call =
  Call_InitGame | Call_UpdatePlayer | Call_FireBullet | Call_UpdateBullets
  | Call_UpdateEnemies | Call_CheckCollisions

definition main_iteration ::
  "(nat \<Rightarrow> nat) \<Rightarrow> Input \<Rightarrow> GameState \<times> nat \<Rightarrow> error + Call list \<times> GameState \<times> nat" where
  "main_iteration rnd inp s =
     (let (game, c) = s;
          deltaTime = GetFrameTime inp
      in if \<not> gameOver game then
           (let game1 = UpdatePlayer inp game deltaTime;
                calls1 = [Call_UpdatePlayer];
                (game2, calls2) =
                  (if IsMouseButtonPressed_LEFT inp
                   then (FireBullet inp game1, calls1 @ [Call_FireBullet])
                   else (game1, calls1));
                game3 = UpdateBullets game2 deltaTime;
                game4 = UpdateEnemies game3 deltaTime
            in case CheckCollisions rnd (game4, c) of
                 Inl e \<Rightarrow> Inl e
               | Inr s' \<Rightarrow>
                   Inr (calls2 @ [Call_UpdateBullets, Call_UpdateEnemies, Call_CheckCollisions], s'))
         else if IsKeyPressed inp KEY_R then Inr ([Call_InitGame], InitGame rnd (game, c))
         else Inr ([], (game, c)))"

text \<open>
  The loop, over the inputs of the frames still to come; it ends when the window is
  closed, when the quit key is pressed, or with the last frame that is observed.
\<close>

fun main_loop :: "(nat \<Rightarrow> nat) \<Rightarrow> Input list \<Rightarrow> GameState \<times> nat \<Rightarrow> error + GameState \<times> nat" where
  "main_loop rnd [] s = Inr s"
| "main_loop rnd (inp # inps) s =
     (if WindowShouldClose inp then Inr s
      else
        (case main_iteration rnd inp s of
           Inl e \<Rightarrow> Inl e
         | Inr (calls, s') \<Rightarrow>
             if IsKeyPressed inp KEY_ESCAPE then Inr s' else main_loop rnd inps s'))"

text \<open>\<open>main\<close> starts from a \<open>GameState\<close> that is not initialised and calls \<open>InitGame\<close> on it.\<close>

definition main :: "(nat \<Rightarrow> nat) \<Rightarrow> Input list \<Rightarrow> GameState \<times> nat \<Rightarrow> error + GameState \<times> nat" where
  "main rnd inps s = main_loop rnd inps (InitGame rnd s)"

section \<open>Vocabulary of the claims\<close>

text \<open>
  The four bands outside the field where a respawned enemy can be, by the number of the
  edge: 0 top, 1 right, 2 bottom, 3 left. A band is 50 units beyond its edge and as long
  as the field.
\<close>

definition in_band :: "int \<Rightarrow> Vector2 \<Rightarrow> bool" where
  "in_band edge p \<longleftrightarrow>
     (if edge = 0 then vec_y p = - 50 \<and> 0 \<le> vec_x p \<and> vec_x p \<le> 800
      else if edge = 1 then vec_x p = 850 \<and> 0 \<le> vec_y p \<and> vec_y p \<le> 600
      else if edge = 2 then vec_y p = 650 \<and> 0 \<le> vec_x p \<and> vec_x p \<le> 800
      else if edge = 3 then vec_x p = - 50 \<and> 0 \<le> vec_y p \<and> vec_y p \<le> 600
      else False)"

text \<open>
  The position that the draw \<open>edge\<close> from 0..3 and the draw \<open>v\<close> of the free coordinate
  stand for.
\<close>

definition respawn_position :: "int \<Rightarrow> int \<Rightarrow> Vector2" where
  "respawn_position edge v =
     (if edge = 0 then \<lparr>vec_x = real_of_int v, vec_y = - 50\<rparr>
      else if edge = 1 then \<lparr>vec_x = 850, vec_y = real_of_int v\<rparr>
      else if edge = 2 then \<lparr>vec_x = real_of_int v, vec_y = 650\<rparr>
      else \<lparr>vec_x = - 50, vec_y = real_of_int v\<rparr>)"

text \<open>
  \<open>respawned e e'\<close>: \<open>e'\<close> is the enemy \<open>e\<close> after a respawn. It is in exactly one band and
  active, and nothing but its position and its flag can differ from \<open>e\<close>.
\<close>

definition respawned :: "GameObject \<Rightarrow> GameObject \<Rightarrow> bool" where
  "respawned e e' \<longleftrightarrow>
     (\<exists>!edge. in_band edge (position e')) \<and> active e' \<and>
     radius e' = radius e \<and> velocity e' = velocity e \<and> color e' = color e"

text \<open>
  \<open>bullet_pass g t\<close>: what the bullet-enemy pass can have made of the state \<open>g\<close> it
  started from, at any point of it. The player, the game-over flag and the sizes of the
  pools are as in \<open>g\<close>; the score is that of \<open>g\<close> plus 10 for each hit so far; a bullet
  is as in \<open>g\<close> or deactivated; an enemy is as in \<open>g\<close> or respawned.
\<close>

definition bullet_pass :: "GameState \<Rightarrow> GameState \<Rightarrow> bool" where
  "bullet_pass g t \<longleftrightarrow>
     player t = player g \<and> gameOver t = gameOver g \<and>
     length (bullets t) = length (bullets g) \<and> length (enemies t) = length (enemies g) \<and>
     (\<exists>k. score t = score g + 10 * int k) \<and>
     (\<forall>i<length (bullets g).
        bullets t ! i = bullets g ! i \<or> bullets t ! i = (bullets g ! i)\<lparr>active := False\<rparr>) \<and>
     (\<forall>j<length (enemies g).
        enemies t ! j = enemies g ! j \<or> respawned (enemies g ! j) (enemies t ! j))"

text \<open>
  The player's centre is at least its radius away from each side of the field.
\<close>

definition player_on_screen :: "GameState \<Rightarrow> bool" where
  "player_on_screen g \<longleftrightarrow>
     (let r = radius (player g); p = position (player g)
      in r \<le> vec_x p \<and> vec_x p \<le> real_of_int SCREEN_WIDTH - r \<and>
         r \<le> vec_y p \<and> vec_y p \<le> real_of_int SCREEN_HEIGHT - r)"

text \<open>
  The enemy pool has its 10 slots and each of them is active.
\<close>

definition enemies_all_active :: "GameState \<Rightarrow> bool" where
  "enemies_all_active g \<longleftrightarrow>
     length (enemies g) = MAX_ENEMIES \<and> (\<forall>j<MAX_ENEMIES. active (enemies g ! j))"

text \<open>
  What holds of the state between the operations of a run: after \<open>InitGame\<close> and after
  each operation of the frame loop.
\<close>

definition frame_inv :: "GameState \<Rightarrow> bool" where
  "frame_inv g \<longleftrightarrow>
     pools_ok g \<and> radius (player g) = 20 \<and> player_on_screen g \<and> enemies_all_active g \<and>
     (\<forall>j<MAX_ENEMIES. radius (enemies g ! j) = 15) \<and>
     (\<forall>i<MAX_BULLETS. radius (bullets g ! i) = 5) \<and> 0 \<le> score g"

text \<open>
  The claim about the diagonal movement, with the factor as a parameter: when both
  components of the accumulated movement are non-zero, each is scaled by \<open>k\<close> before it
  is multiplied by the speed and the elapsed time, and the result is kept on the screen.
\<close>

definition diagonal_scaled_by :: "real \<Rightarrow> Input \<Rightarrow> GameState \<Rightarrow> real \<Rightarrow> bool" where
  "diagonal_scaled_by k inp game deltaTime \<longleftrightarrow>
     (let m = accumulated_movement inp; r = radius (player game); p = position (player game)
      in vec_x m \<noteq> 0 \<and> vec_y m \<noteq> 0 \<longrightarrow>
         position (player (UpdatePlayer inp game deltaTime)) =
           \<lparr>vec_x = keep_on_screen r SCREEN_WIDTH (vec_x p + vec_x m * k * PLAYER_SPEED * deltaTime),
            vec_y = keep_on_screen r SCREEN_HEIGHT (vec_y p + vec_y m * k * PLAYER_SPEED * deltaTime)\<rparr>)"

section \<open>States and inputs for the examples\<close>

text \<open>
  An object at rest at \<open>(px, py)\<close>.
\<close>

definition object_at :: "real \<Rightarrow> real \<Rightarrow> real \<Rightarrow> bool \<Rightarrow> Color \<Rightarrow> GameObject" where
  "object_at px py r a col =
     \<lparr>position = \<lparr>vec_x = px, vec_y = py\<rparr>, velocity = \<lparr>vec_x = 0, vec_y = 0\<rparr>,
      radius = r, active = a, color = col\<rparr>"

text \<open>
  One active bullet, and two enemies within the sum of the radii (20) of it: their
  distances from the bullet are 3 and 4. The other enemies and the player are far away.
\<close>

definition two_in_reach :: GameState where
  "two_in_reach =
     \<lparr>player = object_at 400 300 20 True BLUE,
      bullets = object_at 100 100 5 True YELLOW # replicate 19 (object_at 0 0 5 False YELLOW),
      enemies = object_at 103 100 15 True RED # object_at 104 100 15 True RED
                # replicate 8 (object_at 700 500 15 True RED),
      score = 0, gameOver = False\<rparr>"

text \<open>
  What \<open>CheckCollisions\<close> makes of \<open>two_in_reach\<close>, when the draws are 0, 1, 2, 3.
\<close>

definition two_in_reach_after :: GameState where
  "two_in_reach_after =
     \<lparr>player = object_at 400 300 20 True BLUE,
      bullets = object_at 100 100 5 False YELLOW # replicate 19 (object_at 0 0 5 False YELLOW),
      enemies = object_at 1 (- 50) 15 True RED # object_at 3 650 15 True RED
                # replicate 8 (object_at 700 500 15 True RED),
      score = 20, gameOver = False\<rparr>"

text \<open>
  An enemy that overlaps the player (distance 10) and is overlapped by a bullet
  (distance 5).
\<close>

definition enemy_on_player :: GameState where
  "enemy_on_player =
     \<lparr>player = object_at 400 300 20 True BLUE,
      bullets = object_at 405 300 5 True YELLOW # replicate 19 (object_at 0 0 5 False YELLOW),
      enemies = object_at 410 300 15 True RED # replicate 9 (object_at 700 500 15 True RED),
      score = 0, gameOver = False\<rparr>"

text \<open>
  What \<open>CheckCollisions\<close> makes of \<open>enemy_on_player\<close>, when the draws are 0 and 1.
\<close>

definition enemy_on_player_after :: GameState where
  "enemy_on_player_after =
     \<lparr>player = object_at 400 300 20 True BLUE,
      bullets = object_at 405 300 5 False YELLOW # replicate 19 (object_at 0 0 5 False YELLOW),
      enemies = object_at 1 (- 50) 15 True RED # replicate 9 (object_at 700 500 15 True RED),
      score = 10, gameOver = False\<rparr>"

text \<open>
  All 20 bullets active.
\<close>

definition full_pool :: GameState where
  "full_pool = two_in_reach\<lparr>bullets := replicate 20 (object_at 100 100 5 True YELLOW)\<rparr>"

text \<open>
  Bullet 0 active, bullet 1 inactive, the others active.
\<close>

definition free_slot_1 :: GameState where
  "free_slot_1 =
     two_in_reach\<lparr>bullets := object_at 100 100 5 True YELLOW # object_at 7 8 5 False YELLOW
       # replicate 18 (object_at 100 100 5 True YELLOW)\<rparr>"

text \<open>
  A game that is over, with the score 50.
\<close>

definition lost :: GameState where
  "lost = two_in_reach\<lparr>score := 50, gameOver := True\<rparr>"

text \<open>
  The \<open>GameState\<close> of \<open>main\<close> before \<open>InitGame\<close>: the pools have their sizes, the
  fields hold anything.
\<close>

definition uninitialised :: GameState where
  "uninitialised =
     \<lparr>player = object_at 0 0 0 False (OtherColor 0),
      bullets = replicate 20 (object_at 0 0 0 True (OtherColor 0)),
      enemies = replicate 10 (object_at 0 0 0 False (OtherColor 0)),
      score = 7, gameOver = True\<rparr>"

text \<open>
  A raw random sequence that puts every enemy at (100, 300) in \<open>InitGame\<close>, on a line
  with the player; \<open>rnd_near\<close> puts them at (360, 300), 40 away from the player.
\<close>

definition rnd_line :: "nat \<Rightarrow> nat" where
  "rnd_line n = (if even n then 100 else 300)"

definition rnd_near :: "nat \<Rightarrow> nat" where
  "rnd_near n = (if even n then 360 else 300)"

text \<open>
  The input of a frame of an eighth of a second: the keys held, the keys pressed, the
  mouse button and the mouse position.
\<close>

definition frame_input :: "Key list \<Rightarrow> Key list \<Rightarrow> bool \<Rightarrow> real \<Rightarrow> real \<Rightarrow> Input" where
  "frame_input down pressed click mx my =
     \<lparr>IsKeyDown = (\<lambda>k. k \<in> set down), IsKeyPressed = (\<lambda>k. k \<in> set pressed),
      IsMouseButtonPressed_LEFT = click, GetMousePosition = \<lparr>vec_x = mx, vec_y = my\<rparr>,
      GetFrameTime = 1 / 8, WindowShouldClose = False\<rparr>"

text \<open>
  The key for "right" held, the mouse button pressed, the mouse at (100, 300).
\<close>

definition first_frame :: Input where
  "first_frame = frame_input [KEY_D] [] True 100 300"

definition restart_input :: Input where
  "restart_input = frame_input [] [KEY_R] True 100 300"

definition diagonal_input :: Input where
  "diagonal_input = frame_input [KEY_D, KEY_S] [] False 0 0"

definition aim_at_player :: Input where
  "aim_at_player = frame_input [] [] True 400 300"

text \<open>
  The state after \<open>InitGame\<close> with \<open>rnd_line\<close> and one frame with \<open>first_frame\<close>: the
  player has moved 25 to the right and has fired to the left, the bullet has moved 50 and
  the enemies 12.5.
\<close>

definition after_first_frame :: GameState where
  "after_first_frame =
     \<lparr>player = object_at 425 300 20 True BLUE,
      bullets = \<lparr>position = \<lparr>vec_x = 375, vec_y = 300\<rparr>, velocity = \<lparr>vec_x = - 400, vec_y = 0\<rparr>,
                 radius = 5, active = True, color = YELLOW\<rparr>
                # replicate 19 (object_at 0 0 5 False YELLOW),
      enemies = replicate 10 (object_at (225 / 2) 300 15 True RED),
      score = 0, gameOver = False\<rparr>"

text \<open>
  The state after \<open>InitGame\<close> with \<open>rnd_near\<close> and one frame with \<open>first_frame\<close>: the
  bullet at 375 has met the ten enemies at 372.5.
\<close>

definition ten_kills :: GameState where
  "ten_kills =
     \<lparr>player = object_at 425 300 20 True BLUE,
      bullets = \<lparr>position = \<lparr>vec_x = 375, vec_y = 300\<rparr>, velocity = \<lparr>vec_x = - 400, vec_y = 0\<rparr>,
                 radius = 5, active = False, color = YELLOW\<rparr>
                # replicate 19 (object_at 0 0 5 False YELLOW),
      enemies = replicate 10 (object_at 300 (- 50) 15 True RED),
      score = 100, gameOver = False\<rparr>"

section \<open>Proof rules for the loops\<close>

declare for_loop.simps [simp del] for_loop_err.simps [simp del] FireBullet_scan.simps [simp del]

lemma for_loop_rule:
  assumes step: "\<And>k t. k < n \<Longrightarrow> P k t \<Longrightarrow> P (k + 1) (body k t)"
  shows "P i s \<Longrightarrow> i \<le> n \<Longrightarrow> P n (for_loop i n body s)"
proof (induction "n - i" arbitrary: i s)
  case 0
  then have "i = n" by simp
  then show ?case using "0.prems" by (subst for_loop.simps) simp
next
  case (Suc d)
  then have lt: "i < n" by simp
  have "P (i + 1) (body i s)" by (rule step [OF lt Suc.prems(1)])
  moreover have "d = n - (i + 1)" using Suc.hyps(2) by simp
  ultimately have "P n (for_loop (i + 1) n body (body i s))"
    using Suc.hyps(1) lt by simp
  then show ?case using lt by (subst for_loop.simps) simp
qed

lemma for_loop_err_rule:
  assumes step: "\<And>k t t'. k < n \<Longrightarrow> P k t \<Longrightarrow> body k t = Inr t' \<Longrightarrow> P (k + 1) t'"
  shows "for_loop_err i n body s = Inr s' \<Longrightarrow> P i s \<Longrightarrow> i \<le> n \<Longrightarrow> P n s'"
proof (induction "n - i" arbitrary: i s)
  case 0
  then have "i = n" by simp
  moreover have "s' = s" using "0.prems"(1) \<open>i = n\<close> by (subst (asm) for_loop_err.simps) simp
  ultimately show ?case using "0.prems" by simp
next
  case (Suc d)
  then have lt: "i < n" by simp
  from Suc.prems(1) lt obtain t where t: "body i s = Inr t"
    and rest: "for_loop_err (i + 1) n body t = Inr s'"
    by (subst (asm) for_loop_err.simps) (auto split: sum.splits)
  have "P (i + 1) t" by (rule step [OF lt Suc.prems(2) t])
  moreover have "d = n - (i + 1)" using Suc.hyps(2) by simp
  ultimately show ?case using Suc.hyps(1) [OF _ rest] lt by simp
qed

text \<open>When every body succeeds wherever the invariant holds, the loop succeeds.\<close>

lemma for_loop_err_total:
  assumes step: "\<And>k t. k < n \<Longrightarrow> P k t \<Longrightarrow> \<exists>t'. body k t = Inr t' \<and> P (k + 1) t'"
  shows "P i s \<Longrightarrow> i \<le> n \<Longrightarrow> \<exists>s'. for_loop_err i n body s = Inr s' \<and> P n s'"
proof (induction "n - i" arbitrary: i s)
  case 0
  then have "i = n" by simp
  then show ?case using "0.prems" by (subst for_loop_err.simps) simp
next
  case (Suc d)
  then have lt: "i < n" by simp
  from step [OF lt Suc.prems(1)] obtain t where t: "body i s = Inr t" and Pt: "P (i + 1) t"
    by blast
  have "d = n - (i + 1)" using Suc.hyps(2) by simp
  then have "\<exists>s'. for_loop_err (i + 1) n body t = Inr s' \<and> P n s'"
    using Suc.hyps(1) Pt lt by simp
  then show ?case using lt t by (subst for_loop_err.simps) simp
qed

section \<open>Equations that compute\<close>

text \<open>
  Equations that compute: along an axis the length of a vector is an absolute value, and
  the comparison of a distance with a sum of radii is a comparison of squares.
\<close>

lemma vector_length_code [code]:
  "vector_length dx dy =
     (if dy = 0 then \<bar>dx\<bar> else if dx = 0 then \<bar>dy\<bar> else vector_length dx dy)"
  by (simp add: vector_length_def)

lemma vector_length_less_iff:
  "vector_length dx dy < r \<longleftrightarrow> 0 < r \<and> dx * dx + dy * dy < r * r"
proof (cases "0 < r")
  case True
  then have "sqrt (dx * dx + dy * dy) < r \<longleftrightarrow> sqrt (dx * dx + dy * dy) < sqrt (r * r)" by simp
  also have "\<dots> \<longleftrightarrow> dx * dx + dy * dy < r * r" by (rule real_sqrt_less_iff)
  finally show ?thesis using True by (simp add: vector_length_def)
next
  case False
  have "0 \<le> sqrt (dx * dx + dy * dy)" by simp
  then show ?thesis using False unfolding vector_length_def by linarith
qed

lemma collides_code [code]:
  "collides a b \<longleftrightarrow>
     (let dx = vec_x (position a) - vec_x (position b);
          dy = vec_y (position a) - vec_y (position b);
          rs = radius a + radius b
      in 0 < rs \<and> dx * dx + dy * dy < rs * rs)"
  by (simp add: collides_def distance_def vector_length_less_iff Let_def)

lemma vector_length_ge_abs1: "\<bar>dx\<bar> \<le> vector_length dx dy"
proof -
  have "sqrt (dx * dx) \<le> sqrt (dx * dx + dy * dy)" by (rule real_sqrt_le_mono) simp
  then show ?thesis by (simp add: vector_length_def)
qed

lemma vector_length_ge_abs2: "\<bar>dy\<bar> \<le> vector_length dx dy"
proof -
  have "sqrt (dy * dy) \<le> sqrt (dx * dx + dy * dy)" by (rule real_sqrt_le_mono) simp
  then show ?thesis by (simp add: vector_length_def)
qed

lemma direction_to_self: "direction_to p p = \<lparr>vec_x = 0, vec_y = 0\<rparr>"
  by (simp add: direction_to_def vector_length_def)

section \<open>What each operation does to the state\<close>

subsection \<open>InitGame\<close>

lemma InitGame_bullets_loop:
  fixes g :: GameState
  defines "g' \<equiv> for_loop 0 MAX_BULLETS InitGame_bullet g"
  shows "player g' = player g \<and> enemies g' = enemies g \<and> score g' = score g \<and>
         gameOver g' = gameOver g \<and> length (bullets g') = length (bullets g) \<and>
         (\<forall>j<MAX_BULLETS. j < length (bullets g) \<longrightarrow>
            \<not> active (bullets g' ! j) \<and> radius (bullets g' ! j) = 5)"
  unfolding g'_def
  by (rule for_loop_rule [where P = "\<lambda>k t. player t = player g \<and> enemies t = enemies g \<and>
         score t = score g \<and> gameOver t = gameOver g \<and> length (bullets t) = length (bullets g) \<and>
         (\<forall>j<k. j < length (bullets g) \<longrightarrow> \<not> active (bullets t ! j) \<and> radius (bullets t ! j) = 5)"])
     (auto simp: InitGame_bullet_def nth_list_update less_Suc_eq)

lemma InitGame_enemies_loop:
  fixes g :: GameState
  assumes "for_loop 0 MAX_ENEMIES (InitGame_enemy rnd) (g, c) = (g', c')"
  shows "player g' = player g \<and> bullets g' = bullets g \<and> score g' = score g \<and>
         gameOver g' = gameOver g \<and> length (enemies g') = length (enemies g) \<and>
         (\<forall>j<MAX_ENEMIES. j < length (enemies g) \<longrightarrow>
            active (enemies g' ! j) \<and> radius (enemies g' ! j) = 15)"
proof -
  have "(\<lambda>k t. player (fst t) = player g \<and> bullets (fst t) = bullets g \<and>
         score (fst t) = score g \<and> gameOver (fst t) = gameOver g \<and>
         length (enemies (fst t)) = length (enemies g) \<and>
         (\<forall>j<k. j < length (enemies g) \<longrightarrow>
            active (enemies (fst t) ! j) \<and> radius (enemies (fst t) ! j) = 15))
        MAX_ENEMIES (for_loop 0 MAX_ENEMIES (InitGame_enemy rnd) (g, c))"
    by (rule for_loop_rule)
       (auto simp: InitGame_enemy_def GetRandomValue_def nth_list_update less_Suc_eq
             split: prod.splits)
  then show ?thesis using assms by simp
qed

lemma InitGame_result:
  assumes "InitGame rnd (g, c) = (g', c')"
  shows "position (player g') = \<lparr>vec_x = 400, vec_y = 300\<rparr> \<and> radius (player g') = 20 \<and>
         score g' = 0 \<and> \<not> gameOver g' \<and>
         length (bullets g') = length (bullets g) \<and> length (enemies g') = length (enemies g) \<and>
         (\<forall>j<MAX_BULLETS. j < length (bullets g) \<longrightarrow>
            \<not> active (bullets g' ! j) \<and> radius (bullets g' ! j) = 5) \<and>
         (\<forall>j<MAX_ENEMIES. j < length (enemies g) \<longrightarrow>
            active (enemies g' ! j) \<and> radius (enemies g' ! j) = 15)"
proof -
  define g1 where "g1 = g\<lparr>player := (player g)
            \<lparr>position := \<lparr>vec_x = real_of_int (SCREEN_WIDTH div 2),
                          vec_y = real_of_int (SCREEN_HEIGHT div 2)\<rparr>,
             velocity := \<lparr>vec_x = 0, vec_y = 0\<rparr>,
             radius := 20, active := True, color := BLUE\<rparr>\<rparr>"
  define g2 where "g2 = for_loop 0 MAX_BULLETS InitGame_bullet g1"
  obtain g3 c3 where l3: "for_loop 0 MAX_ENEMIES (InitGame_enemy rnd) (g2, c) = (g3, c3)"
    by (cases "for_loop 0 MAX_ENEMIES (InitGame_enemy rnd) (g2, c)")
  have g': "g' = g3\<lparr>score := 0, gameOver := False\<rparr>"
    using assms l3 by (simp add: InitGame_def g1_def g2_def Let_def)
  note b = InitGame_bullets_loop [of g1, folded g2_def]
  note e = InitGame_enemies_loop [OF l3]
  show ?thesis using b e
    by (simp add: g' g1_def SCREEN_WIDTH_def SCREEN_HEIGHT_def)
qed

subsection \<open>UpdatePlayer\<close>

lemma UpdatePlayer_frame:
  "bullets (UpdatePlayer inp g dt) = bullets g \<and> enemies (UpdatePlayer inp g dt) = enemies g \<and>
   score (UpdatePlayer inp g dt) = score g \<and> gameOver (UpdatePlayer inp g dt) = gameOver g \<and>
   radius (player (UpdatePlayer inp g dt)) = radius (player g)"
  by (simp add: UpdatePlayer_def Let_def)

lemma keep_on_screen_bounds:
  assumes "2 * r \<le> real_of_int limit"
  shows "r \<le> keep_on_screen r limit v \<and> keep_on_screen r limit v \<le> real_of_int limit - r"
  using assms by (simp add: keep_on_screen_def Let_def)

lemma UpdatePlayer_on_screen:
  "radius (player g) \<le> 300 \<Longrightarrow> player_on_screen (UpdatePlayer inp g dt)"
  using keep_on_screen_bounds [of "radius (player g)" SCREEN_WIDTH]
        keep_on_screen_bounds [of "radius (player g)" SCREEN_HEIGHT]
  by (simp add: player_on_screen_def UpdatePlayer_def Let_def SCREEN_WIDTH_def SCREEN_HEIGHT_def)

subsection \<open>FireBullet\<close>

lemma FireBullet_scan_full:
  "\<forall>m. i \<le> m \<and> m < MAX_BULLETS \<longrightarrow> active (bullets g ! m) \<Longrightarrow> FireBullet_scan d i g = g"
proof (induction d i g rule: FireBullet_scan.induct)
  case (1 d i g)
  show ?case
  proof (cases "i < MAX_BULLETS")
    case True
    then have a: "active (bullets g ! i)" using "1.prems" by simp
    have "FireBullet_scan d (i + 1) g = g" using "1.IH" [OF True] a "1.prems" by simp
    then show ?thesis using True a by (subst FireBullet_scan.simps) simp
  next
    case False
    then show ?thesis by (subst FireBullet_scan.simps) simp
  qed
qed

lemma FireBullet_scan_first:
  "i \<le> k \<Longrightarrow> k < MAX_BULLETS \<Longrightarrow> \<not> active (bullets g ! k) \<Longrightarrow>
   \<forall>m. i \<le> m \<and> m < k \<longrightarrow> active (bullets g ! m) \<Longrightarrow>
   FireBullet_scan d i g = g\<lparr>bullets := (bullets g)[k := fired d g (bullets g ! k)]\<rparr>"
proof (induction d i g rule: FireBullet_scan.induct)
  case (1 d i g)
  have lt: "i < MAX_BULLETS" using "1.prems" by simp
  show ?case
  proof (cases "i = k")
    case True
    then show ?thesis using "1.prems" by (subst FireBullet_scan.simps) simp
  next
    case False
    then have a: "active (bullets g ! i)" and le: "i + 1 \<le> k" using "1.prems" by auto
    have "FireBullet_scan d (i + 1) g = g\<lparr>bullets := (bullets g)[k := fired d g (bullets g ! k)]\<rparr>"
      using "1.IH" [OF lt _ le] a "1.prems" by simp
    then show ?thesis using lt a by (subst FireBullet_scan.simps) simp
  qed
qed

lemma FireBullet_scan_cases:
  "FireBullet_scan d i g = g \<or>
   (\<exists>k<MAX_BULLETS. \<not> active (bullets g ! k) \<and>
      FireBullet_scan d i g = g\<lparr>bullets := (bullets g)[k := fired d g (bullets g ! k)]\<rparr>)"
proof (induction d i g rule: FireBullet_scan.induct)
  case (1 d i g)
  show ?case
  proof (cases "i < MAX_BULLETS")
    case True
    show ?thesis
    proof (cases "active (bullets g ! i)")
      case True
      then have "FireBullet_scan d i g = FireBullet_scan d (i + 1) g"
        using \<open>i < MAX_BULLETS\<close> by (subst FireBullet_scan.simps) simp
      then show ?thesis using "1.IH" [OF \<open>i < MAX_BULLETS\<close>] True by simp
    next
      case False
      then have "FireBullet_scan d i g = g\<lparr>bullets := (bullets g)[i := fired d g (bullets g ! i)]\<rparr>"
        using True by (subst FireBullet_scan.simps) simp
      then show ?thesis using True False by blast
    qed
  next
    case False
    then show ?thesis by (subst FireBullet_scan.simps) simp
  qed
qed

lemma FireBullet_frame:
  "player (FireBullet inp g) = player g \<and> enemies (FireBullet inp g) = enemies g \<and>
   score (FireBullet inp g) = score g \<and> gameOver (FireBullet inp g) = gameOver g \<and>
   length (bullets (FireBullet inp g)) = length (bullets g)"
  using FireBullet_scan_cases [of "direction_to (GetMousePosition inp) (position (player g))" 0 g]
  by (auto simp: FireBullet_def)

subsection \<open>UpdateBullets and UpdateEnemies\<close>

lemma UpdateBullets_result:
  fixes g :: GameState and dt :: real
  defines "g' \<equiv> UpdateBullets g dt"
  shows "player g' = player g \<and> enemies g' = enemies g \<and> score g' = score g \<and>
         gameOver g' = gameOver g \<and> length (bullets g') = length (bullets g) \<and>
         (\<forall>j<MAX_BULLETS. j < length (bullets g) \<longrightarrow>
            bullets g' ! j = UpdateBullets_body dt (bullets g ! j))"
proof -
  have "(\<lambda>k t. player t = player g \<and> enemies t = enemies g \<and>
         score t = score g \<and> gameOver t = gameOver g \<and> length (bullets t) = length (bullets g) \<and>
         (\<forall>j<k. j < length (bullets g) \<longrightarrow> bullets t ! j = UpdateBullets_body dt (bullets g ! j)) \<and>
         (\<forall>j\<ge>k. bullets t ! j = bullets g ! j)) MAX_BULLETS g'"
    unfolding g'_def UpdateBullets_def
    by (rule for_loop_rule) (auto simp: nth_list_update less_Suc_eq)
  then show ?thesis by simp
qed

lemma UpdateBullets_body_radius: "radius (UpdateBullets_body dt b) = radius b"
  by (simp add: UpdateBullets_body_def Let_def)

lemma UpdateBullets_body_at_rest:
  assumes "active b" and "velocity b = \<lparr>vec_x = 0, vec_y = 0\<rparr>"
    and "0 \<le> vec_x (position b)" and "vec_x (position b) \<le> real_of_int SCREEN_WIDTH"
    and "0 \<le> vec_y (position b)" and "vec_y (position b) \<le> real_of_int SCREEN_HEIGHT"
  shows "UpdateBullets_body dt b = b"
  using assms by (simp add: UpdateBullets_body_def Let_def)

lemma UpdateBullets_at_rest:
  assumes "length (bullets g) = MAX_BULLETS" and "k < MAX_BULLETS" and "bullets g ! k = b"
    and "active b" and "velocity b = \<lparr>vec_x = 0, vec_y = 0\<rparr>"
    and "0 \<le> vec_x (position b)" and "vec_x (position b) \<le> real_of_int SCREEN_WIDTH"
    and "0 \<le> vec_y (position b)" and "vec_y (position b) \<le> real_of_int SCREEN_HEIGHT"
  shows "length (bullets (fold (\<lambda>dt g. UpdateBullets g dt) dts g)) = MAX_BULLETS \<and>
         bullets (fold (\<lambda>dt g. UpdateBullets g dt) dts g) ! k = b"
  using assms(1,3)
proof (induction dts arbitrary: g)
  case Nil
  then show ?case by simp
next
  case (Cons dt dts)
  have "length (bullets (UpdateBullets g dt)) = MAX_BULLETS"
    using UpdateBullets_result [of g dt] Cons.prems by simp
  moreover have "bullets (UpdateBullets g dt) ! k = b"
    using UpdateBullets_result [of g dt] Cons.prems assms(2)
          UpdateBullets_body_at_rest [OF assms(4-9), of dt]
    by simp
  ultimately show ?case using Cons.IH [of "UpdateBullets g dt"] by simp
qed

lemma UpdateEnemies_result:
  fixes g :: GameState and dt :: real
  defines "g' \<equiv> UpdateEnemies g dt"
  shows "player g' = player g \<and> bullets g' = bullets g \<and> score g' = score g \<and>
         gameOver g' = gameOver g \<and> length (enemies g') = length (enemies g) \<and>
         (\<forall>j<MAX_ENEMIES. j < length (enemies g) \<longrightarrow>
            enemies g' ! j = UpdateEnemies_body (position (player g)) dt (enemies g ! j))"
proof -
  have "(\<lambda>k t. player t = player g \<and> bullets t = bullets g \<and>
         score t = score g \<and> gameOver t = gameOver g \<and> length (enemies t) = length (enemies g) \<and>
         (\<forall>j<k. j < length (enemies g) \<longrightarrow>
            enemies t ! j = UpdateEnemies_body (position (player g)) dt (enemies g ! j)) \<and>
         (\<forall>j\<ge>k. enemies t ! j = enemies g ! j)) MAX_ENEMIES g'"
    unfolding g'_def UpdateEnemies_def
    by (rule for_loop_rule) (auto simp: nth_list_update less_Suc_eq)
  then show ?thesis by simp
qed

lemma UpdateEnemies_body_keeps:
  "active (UpdateEnemies_body p dt e) = active e \<and> radius (UpdateEnemies_body p dt e) = radius e"
  by (simp add: UpdateEnemies_body_def Let_def)

subsection \<open>CheckCollisions\<close>

lemma GetRandomValue_range:
  assumes "lo \<le> hi" and "GetRandomValue rnd lo hi c = (v, c')"
  shows "lo \<le> v \<and> v \<le> hi \<and> c' = Suc c"
proof -
  have pos: "0 < nat (hi - lo + 1)" using assms(1) by simp
  have "rnd c mod nat (hi - lo + 1) < nat (hi - lo + 1)" using pos by (rule mod_less_divisor)
  then have "int (rnd c mod nat (hi - lo + 1)) < hi - lo + 1" using assms(1) by linarith
  then show ?thesis using assms(2) by (auto simp: GetRandomValue_def)
qed

lemma in_band_unique: "in_band a p \<Longrightarrow> in_band b p \<Longrightarrow> a = b"
  by (auto simp: in_band_def split: if_splits)

lemma in_band_respawn_position:
  "0 \<le> edge \<Longrightarrow> edge \<le> 3 \<Longrightarrow> 0 \<le> v \<Longrightarrow>
   v \<le> (if edge = 0 \<or> edge = 2 then SCREEN_WIDTH else SCREEN_HEIGHT) \<Longrightarrow>
   in_band edge (respawn_position edge v)"
  by (auto simp: in_band_def respawn_position_def SCREEN_WIDTH_def SCREEN_HEIGHT_def)

lemma in_band_far_from_player:
  assumes "in_band edge p"
    and "20 \<le> vec_x q" "vec_x q \<le> 780" "20 \<le> vec_y q" "vec_y q \<le> 580"
  shows "70 \<le> distance q p"
proof -
  have "70 \<le> \<bar>vec_x q - vec_x p\<bar> \<or> 70 \<le> \<bar>vec_y q - vec_y p\<bar>"
    using assms by (auto simp: in_band_def split: if_splits)
  then show ?thesis
    using vector_length_ge_abs1 [of "vec_x q - vec_x p" "vec_y q - vec_y p"]
          vector_length_ge_abs2 [of "vec_y q - vec_y p" "vec_x q - vec_x p"]
    unfolding distance_def by linarith
qed

lemma respawn_at_edge_result:
  assumes "respawn_at_edge rnd j (g, c) = (g', c')"
  obtains edge v where
    "GetRandomValue rnd 0 3 c = (edge, Suc c)"
    "GetRandomValue rnd 0 (if edge = 0 \<or> edge = 2 then SCREEN_WIDTH else SCREEN_HEIGHT) (Suc c)
       = (v, c')"
    "0 \<le> edge" "edge \<le> 3" "in_band edge (respawn_position edge v)"
    "g' = g\<lparr>enemies := (enemies g)[j := (enemies g ! j)\<lparr>position := respawn_position edge v\<rparr>]\<rparr>"
proof -
  obtain edge c1 where e: "GetRandomValue rnd 0 3 c = (edge, c1)"
    by (cases "GetRandomValue rnd 0 3 c")
  have er: "0 \<le> edge \<and> edge \<le> 3 \<and> c1 = Suc c"
    using GetRandomValue_range [OF _ e] by simp
  obtain v c2 where
    v: "GetRandomValue rnd 0 (if edge = 0 \<or> edge = 2 then SCREEN_WIDTH else SCREEN_HEIGHT) c1 = (v, c2)"
    by (cases "GetRandomValue rnd 0 (if edge = 0 \<or> edge = 2 then SCREEN_WIDTH else SCREEN_HEIGHT) c1")
  have vr: "0 \<le> v \<and> v \<le> (if edge = 0 \<or> edge = 2 then SCREEN_WIDTH else SCREEN_HEIGHT)"
    using GetRandomValue_range [OF _ v] by (simp add: SCREEN_WIDTH_def SCREEN_HEIGHT_def)
  have cases: "edge = 0 \<or> edge = 1 \<or> edge = 2 \<or> edge = 3" using er by auto
  have "g' = g\<lparr>enemies := (enemies g)[j := (enemies g ! j)\<lparr>position := respawn_position edge v\<rparr>]\<rparr>
        \<and> c' = c2"
    using assms e v cases
    by (auto simp: respawn_at_edge_def respawn_position_def SCREEN_WIDTH_def SCREEN_HEIGHT_def)
  then show ?thesis
    using that [of edge v] e v er vr in_band_respawn_position [of edge v] by simp
qed

lemma respawn_at_edge_score: "score (fst (respawn_at_edge rnd j (g, c))) = score g"
proof -
  obtain g' c' where r: "respawn_at_edge rnd j (g, c) = (g', c')"
    by (cases "respawn_at_edge rnd j (g, c)")
  from r obtain edge v where
    "g' = g\<lparr>enemies := (enemies g)[j := (enemies g ! j)\<lparr>position := respawn_position edge v\<rparr>]\<rparr>"
    by (rule respawn_at_edge_result)
  then show ?thesis using r by simp
qed

lemma bullet_hits_enemy_result:
  assumes "bullet_hits_enemy rnd i j (g, c) = Inr (g', c')" and j: "j < length (enemies g)"
  obtains edge v where
    "GetRandomValue rnd 0 3 c = (edge, Suc c)"
    "GetRandomValue rnd 0 (if edge = 0 \<or> edge = 2 then SCREEN_WIDTH else SCREEN_HEIGHT) (Suc c)
       = (v, c')"
    "0 \<le> edge" "edge \<le> 3" "in_band edge (respawn_position edge v)"
    "g' = g\<lparr>bullets := (bullets g)[i := (bullets g ! i)\<lparr>active := False\<rparr>],
            enemies := (enemies g)
              [j := (enemies g ! j)\<lparr>position := respawn_position edge v, active := True\<rparr>],
            score := score g + 10\<rparr>"
    "score g \<le> INT_MAX - 10"
proof -
  define g3 where "g3 = g\<lparr>bullets := (bullets g)[i := (bullets g ! i)\<lparr>active := False\<rparr>],
      enemies := (enemies g)[j := (enemies g ! j)\<lparr>active := False\<rparr>], score := score g + 10\<rparr>"
  have ok: "score g \<le> INT_MAX - 10"
    using assms by (auto simp: bullet_hits_enemy_def Let_def split: if_splits)
  obtain g4 c4 where r: "respawn_at_edge rnd j (g3, c) = (g4, c4)"
    by (cases "respawn_at_edge rnd j (g3, c)")
  have g': "g' = g4\<lparr>enemies := (enemies g4)[j := (enemies g4 ! j)\<lparr>active := True\<rparr>]\<rparr>" and c': "c' = c4"
    using assms ok r by (auto simp: bullet_hits_enemy_def Let_def g3_def)
  from r obtain edge v where ev:
    "GetRandomValue rnd 0 3 c = (edge, Suc c)"
    "GetRandomValue rnd 0 (if edge = 0 \<or> edge = 2 then SCREEN_WIDTH else SCREEN_HEIGHT) (Suc c)
       = (v, c4)"
    "0 \<le> edge" "edge \<le> 3" "in_band edge (respawn_position edge v)"
    "g4 = g3\<lparr>enemies := (enemies g3)[j := (enemies g3 ! j)\<lparr>position := respawn_position edge v\<rparr>]\<rparr>"
    by (rule respawn_at_edge_result)
  have "g' = g\<lparr>bullets := (bullets g)[i := (bullets g ! i)\<lparr>active := False\<rparr>],
            enemies := (enemies g)
              [j := (enemies g ! j)\<lparr>position := respawn_position edge v, active := True\<rparr>],
            score := score g + 10\<rparr>"
    using j by (simp add: g' ev(6) g3_def)
  then show ?thesis using that [of edge v] ev ok c' by simp
qed

lemma bullet_hits_enemy_defined:
  assumes "score g \<le> INT_MAX - 10"
  shows "\<exists>g' c'. bullet_hits_enemy rnd i j (g, c) = Inr (g', c') \<and> score g' = score g + 10"
proof -
  define g3 where "g3 = g\<lparr>bullets := (bullets g)[i := (bullets g ! i)\<lparr>active := False\<rparr>],
      enemies := (enemies g)[j := (enemies g ! j)\<lparr>active := False\<rparr>], score := score g + 10\<rparr>"
  obtain g4 c4 where r: "respawn_at_edge rnd j (g3, c) = (g4, c4)"
    by (cases "respawn_at_edge rnd j (g3, c)")
  have "score g4 = score g + 10" using respawn_at_edge_score [of rnd j g3 c] r by (simp add: g3_def)
  moreover have "bullet_hits_enemy rnd i j (g, c) =
      Inr (g4\<lparr>enemies := (enemies g4)[j := (enemies g4 ! j)\<lparr>active := True\<rparr>]\<rparr>, c4)"
    using assms r by (simp add: bullet_hits_enemy_def Let_def g3_def)
  ultimately show ?thesis by simp
qed

lemma bullet_pass_refl: "bullet_pass g g"
proof -
  have "score g = score g + 10 * int 0" by simp
  then have "\<exists>k. score g = score g + 10 * int k" by (rule exI)
  then show ?thesis by (simp add: bullet_pass_def)
qed

lemma bullet_pass_hit:
  assumes bp: "bullet_pass g t" and hit: "bullet_hits_enemy rnd i j (t, c) = Inr (t', c')"
    and j: "j < length (enemies g)"
  shows "bullet_pass g t'"
proof -
  have jt: "j < length (enemies t)" using bp j by (simp add: bullet_pass_def)
  from hit jt obtain edge v where ev:
    "in_band edge (respawn_position edge v)"
    "t' = t\<lparr>bullets := (bullets t)[i := (bullets t ! i)\<lparr>active := False\<rparr>],
            enemies := (enemies t)
              [j := (enemies t ! j)\<lparr>position := respawn_position edge v, active := True\<rparr>],
            score := score t + 10\<rparr>"
    by (rule bullet_hits_enemy_result)
  from bp obtain k where k: "score t = score g + 10 * int k" by (auto simp: bullet_pass_def)
  have "score t' = score g + 10 * int (Suc k)" using k ev(2) by simp
  then have sc: "\<exists>k. score t' = score g + 10 * int k" by (rule exI)
  have band: "\<exists>!e. in_band e (respawn_position edge v)"
    using ev(1) in_band_unique by blast
  have bul: "\<forall>m<length (bullets g).
        bullets t' ! m = bullets g ! m \<or> bullets t' ! m = (bullets g ! m)\<lparr>active := False\<rparr>"
  proof (intro allI impI)
    fix m assume m: "m < length (bullets g)"
    from bp m have old: "bullets t ! m = bullets g ! m \<or> bullets t ! m = (bullets g ! m)\<lparr>active := False\<rparr>"
      by (simp add: bullet_pass_def)
    have mt: "m < length (bullets t)" using bp m by (simp add: bullet_pass_def)
    show "bullets t' ! m = bullets g ! m \<or> bullets t' ! m = (bullets g ! m)\<lparr>active := False\<rparr>"
    proof (cases "m = i")
      case True
      have "bullets t' ! m = (bullets t ! m)\<lparr>active := False\<rparr>" using mt True by (simp add: ev(2))
      then show ?thesis using old by auto
    next
      case False
      then show ?thesis using old by (simp add: ev(2))
    qed
  qed
  have en: "\<forall>m<length (enemies g).
        enemies t' ! m = enemies g ! m \<or> respawned (enemies g ! m) (enemies t' ! m)"
  proof (intro allI impI)
    fix m assume m: "m < length (enemies g)"
    from bp m have old: "enemies t ! m = enemies g ! m \<or> respawned (enemies g ! m) (enemies t ! m)"
      by (simp add: bullet_pass_def)
    show "enemies t' ! m = enemies g ! m \<or> respawned (enemies g ! m) (enemies t' ! m)"
    proof (cases "m = j")
      case True
      have "respawned (enemies g ! m) (enemies t' ! m)"
        using old band jt True by (auto simp: ev(2) respawned_def)
      then show ?thesis ..
    next
      case False
      then show ?thesis using old by (simp add: ev(2))
    qed
  qed
  show ?thesis using bp sc bul en by (simp add: bullet_pass_def ev(2))
qed

lemma CheckCollisions_enemy_pass:
  assumes "bullet_pass g t" and "CheckCollisions_enemy rnd i j (t, c) = Inr (t', c')"
    and "j < length (enemies g)"
  shows "bullet_pass g t'"
  using assms bullet_pass_hit [of g t rnd i j c t' c']
  by (auto simp: CheckCollisions_enemy_def split: if_splits)

lemma CheckCollisions_bullet_pass:
  assumes bp: "bullet_pass g t" and run: "CheckCollisions_bullet rnd i (t, c) = Inr (t', c')"
    and len: "length (enemies g) = MAX_ENEMIES"
  shows "bullet_pass g t'"
proof (cases "active (bullets t ! i)")
  case True
  then have loop: "for_loop_err 0 MAX_ENEMIES (CheckCollisions_enemy rnd i) (t, c) = Inr (t', c')"
    using run by (simp add: CheckCollisions_bullet_def)
  have "(\<lambda>k s. bullet_pass g (fst s)) MAX_ENEMIES (t', c')"
  proof (rule for_loop_err_rule [OF _ loop])
    show "bullet_pass g (fst (t, c))" using bp by simp
  next
    fix k s s'
    assume "k < MAX_ENEMIES" "bullet_pass g (fst s)" "CheckCollisions_enemy rnd i k s = Inr s'"
    then show "bullet_pass g (fst s')"
      using CheckCollisions_enemy_pass [of g "fst s" rnd i k "snd s" "fst s'" "snd s'"] len
      by simp
  qed simp
  then show ?thesis by simp
next
  case False
  then show ?thesis using run bp by (simp add: CheckCollisions_bullet_def)
qed

lemma CheckCollisions_bullets_pass:
  assumes run: "for_loop_err 0 MAX_BULLETS (CheckCollisions_bullet rnd) (g, c) = Inr (t, c')"
    and len: "length (enemies g) = MAX_ENEMIES"
  shows "bullet_pass g t"
proof -
  have "(\<lambda>k s. bullet_pass g (fst s)) MAX_BULLETS (t, c')"
  proof (rule for_loop_err_rule [OF _ run])
    show "bullet_pass g (fst (g, c))" by (simp add: bullet_pass_refl)
  next
    fix k s s'
    assume "k < MAX_BULLETS" "bullet_pass g (fst s)" "CheckCollisions_bullet rnd k s = Inr s'"
    then show "bullet_pass g (fst s')"
      using CheckCollisions_bullet_pass [of g "fst s" rnd k "snd s" "fst s'" "snd s'"] len
      by simp
  qed simp
  then show ?thesis by simp
qed

text \<open>The player-enemy pass changes the game-over flag only.\<close>

lemma CheckCollisions_player_pass:
  fixes g :: GameState
  defines "hit k \<equiv> gameOver g \<or>
             (\<exists>j<k. active (enemies g ! j) \<and> collides (player g) (enemies g ! j))"
  shows "for_loop 0 MAX_ENEMIES CheckCollisions_player g = g\<lparr>gameOver := hit MAX_ENEMIES\<rparr>"
proof -
  have step: "CheckCollisions_player k (g\<lparr>gameOver := hit k\<rparr>) = g\<lparr>gameOver := hit (k + 1)\<rparr>" for k
  proof (cases "active (enemies g ! k) \<and> collides (player g) (enemies g ! k)")
    case True
    then have "hit (k + 1)" unfolding hit_def by auto
    then show ?thesis using True by (simp add: CheckCollisions_player_def collides_def)
  next
    case False
    then have "hit (k + 1) = hit k" unfolding hit_def by (auto simp: less_Suc_eq)
    then show ?thesis using False by (auto simp: CheckCollisions_player_def collides_def)
  qed
  have "(\<lambda>k t. t = g\<lparr>gameOver := hit k\<rparr>) MAX_ENEMIES (for_loop 0 MAX_ENEMIES CheckCollisions_player g)"
  proof (rule for_loop_rule)
    show "g = g\<lparr>gameOver := hit 0\<rparr>" by (simp add: hit_def)
  next
    fix k t assume "t = g\<lparr>gameOver := hit k\<rparr>"
    then show "CheckCollisions_player k t = g\<lparr>gameOver := hit (k + 1)\<rparr>" using step by simp
  qed simp
  then show ?thesis by simp
qed

lemma CheckCollisions_result:
  assumes run: "CheckCollisions rnd (g, c) = Inr (g', c')" and len: "length (enemies g) = MAX_ENEMIES"
  obtains t where "bullet_pass g t"
    "for_loop_err 0 MAX_BULLETS (CheckCollisions_bullet rnd) (g, c) = Inr (t, c')"
    "g' = t\<lparr>gameOver := gameOver g \<or>
           (\<exists>j<MAX_ENEMIES. active (enemies t ! j) \<and> collides (player g) (enemies t ! j))\<rparr>"
proof -
  from run obtain t where t: "for_loop_err 0 MAX_BULLETS (CheckCollisions_bullet rnd) (g, c) = Inr (t, c')"
    and g': "g' = for_loop 0 MAX_ENEMIES CheckCollisions_player t"
    by (auto simp: CheckCollisions_def split: sum.splits)
  have bp: "bullet_pass g t" by (rule CheckCollisions_bullets_pass [OF t len])
  then have "player t = player g" "gameOver t = gameOver g" by (simp_all add: bullet_pass_def)
  then show ?thesis using that [OF bp t] g' CheckCollisions_player_pass [of t] by simp
qed

text \<open>
  \<open>CheckCollisions\<close> fails on a signed overflow of the score only: it returns whenever
  the score leaves room for the 200 hits that 20 bullets and 10 enemies can make.
\<close>

lemma CheckCollisions_enemy_defined:
  assumes "score g \<le> INT_MAX - 10"
  shows "\<exists>s'. CheckCollisions_enemy rnd i j (g, c) = Inr s' \<and> score (fst s') \<le> score g + 10"
  using bullet_hits_enemy_defined [OF assms, of rnd i j c]
  by (auto simp: CheckCollisions_enemy_def)

lemma CheckCollisions_bullet_defined:
  assumes "score g \<le> INT_MAX - 100"
  shows "\<exists>s'. CheckCollisions_bullet rnd i (g, c) = Inr s' \<and> score (fst s') \<le> score g + 100"
proof (cases "active (bullets g ! i)")
  case True
  have "\<exists>s'. for_loop_err 0 MAX_ENEMIES (CheckCollisions_enemy rnd i) (g, c) = Inr s' \<and>
          (\<lambda>k s. score (fst s) \<le> score g + 10 * int k) MAX_ENEMIES s'"
  proof (rule for_loop_err_total)
    fix k and t :: "GameState \<times> nat"
    assume k: "k < MAX_ENEMIES" and P: "score (fst t) \<le> score g + 10 * int k"
    then have "score (fst t) \<le> INT_MAX - 10" using assms by (simp add: MAX_ENEMIES_def)
    then obtain s' where "CheckCollisions_enemy rnd i k (fst t, snd t) = Inr s'"
      "score (fst s') \<le> score (fst t) + 10"
      using CheckCollisions_enemy_defined by blast
    then show "\<exists>t'. CheckCollisions_enemy rnd i k t = Inr t' \<and>
                 score (fst t') \<le> score g + 10 * int (k + 1)"
      using P by auto
  qed simp_all
  then show ?thesis using True by (auto simp: CheckCollisions_bullet_def MAX_ENEMIES_def)
next
  case False
  then show ?thesis by (simp add: CheckCollisions_bullet_def)
qed

lemma CheckCollisions_defined:
  assumes "score g \<le> INT_MAX - 2000"
  shows "\<exists>s'. CheckCollisions rnd (g, c) = Inr s'"
proof -
  have "\<exists>s'. for_loop_err 0 MAX_BULLETS (CheckCollisions_bullet rnd) (g, c) = Inr s' \<and>
          (\<lambda>k s. score (fst s) \<le> score g + 100 * int k) MAX_BULLETS s'"
  proof (rule for_loop_err_total)
    fix k and t :: "GameState \<times> nat"
    assume k: "k < MAX_BULLETS" and P: "score (fst t) \<le> score g + 100 * int k"
    then have "score (fst t) \<le> INT_MAX - 100" using assms by (simp add: MAX_BULLETS_def)
    then obtain s' where "CheckCollisions_bullet rnd k (fst t, snd t) = Inr s'"
      "score (fst s') \<le> score (fst t) + 100"
      using CheckCollisions_bullet_defined by blast
    then show "\<exists>t'. CheckCollisions_bullet rnd k t = Inr t' \<and>
                 score (fst t') \<le> score g + 100 * int (k + 1)"
      using P by auto
  qed simp_all
  then show ?thesis by (auto simp: CheckCollisions_def split: prod.splits)
qed

lemma enemies_all_active_bullet_pass:
  assumes "enemies_all_active g" and "bullet_pass g t"
  shows "enemies_all_active t"
proof -
  have len: "length (enemies g) = MAX_ENEMIES" using assms(1) by (simp add: enemies_all_active_def)
  have "active (enemies t ! j)" if "j < MAX_ENEMIES" for j
  proof -
    have "enemies t ! j = enemies g ! j \<or> respawned (enemies g ! j) (enemies t ! j)"
      using assms(2) that len by (simp add: bullet_pass_def)
    moreover have "active (enemies g ! j)" using assms(1) that by (simp add: enemies_all_active_def)
    ultimately show ?thesis by (auto simp: respawned_def)
  qed
  then show ?thesis using assms(2) len by (simp add: enemies_all_active_def bullet_pass_def)
qed

lemma enemies_all_active_CheckCollisions:
  assumes "enemies_all_active g" and "CheckCollisions rnd (g, c) = Inr (g', c')"
  shows "enemies_all_active g'"
proof -
  have len: "length (enemies g) = MAX_ENEMIES" using assms(1) by (simp add: enemies_all_active_def)
  from assms(2) len obtain t where t: "bullet_pass g t"
    and g': "g' = t\<lparr>gameOver := gameOver g \<or>
           (\<exists>j<MAX_ENEMIES. active (enemies t ! j) \<and> collides (player g) (enemies t ! j))\<rparr>"
    by (rule CheckCollisions_result)
  show ?thesis using enemies_all_active_bullet_pass [OF assms(1) t]
    by (simp add: g' enemies_all_active_def)
qed

section \<open>The invariant of a run\<close>

lemma UpdatePlayer_inv: "frame_inv g \<Longrightarrow> frame_inv (UpdatePlayer inp g dt)"
  using UpdatePlayer_frame [of inp g dt] UpdatePlayer_on_screen [of g inp dt]
  by (simp add: frame_inv_def pools_ok_def enemies_all_active_def)

lemma FireBullet_inv:
  assumes "frame_inv g"
  shows "frame_inv (FireBullet inp g)"
proof -
  define d where "d = direction_to (GetMousePosition inp) (position (player g))"
  have "FireBullet inp g = g \<or>
    (\<exists>k<MAX_BULLETS. FireBullet inp g = g\<lparr>bullets := (bullets g)[k := fired d g (bullets g ! k)]\<rparr>)"
    using FireBullet_scan_cases [of d 0 g] by (auto simp: FireBullet_def d_def)
  then show ?thesis
  proof
    assume "FireBullet inp g = g"
    then show ?thesis using assms by simp
  next
    assume "\<exists>k<MAX_BULLETS. FireBullet inp g = g\<lparr>bullets := (bullets g)[k := fired d g (bullets g ! k)]\<rparr>"
    then obtain k where k: "k < MAX_BULLETS"
      and eq: "FireBullet inp g = g\<lparr>bullets := (bullets g)[k := fired d g (bullets g ! k)]\<rparr>"
      by blast
    show ?thesis using assms k
      by (auto simp: eq frame_inv_def pools_ok_def enemies_all_active_def player_on_screen_def Let_def
          fired_def nth_list_update)
  qed
qed

lemma UpdateBullets_inv:
  assumes "frame_inv g"
  shows "frame_inv (UpdateBullets g dt)"
  using assms UpdateBullets_result [of g dt]
  by (simp add: frame_inv_def pools_ok_def enemies_all_active_def player_on_screen_def Let_def
      UpdateBullets_body_radius)

lemma UpdateEnemies_inv:
  assumes "frame_inv g"
  shows "frame_inv (UpdateEnemies g dt)"
  using assms UpdateEnemies_result [of g dt]
  by (simp add: frame_inv_def pools_ok_def enemies_all_active_def player_on_screen_def Let_def
      UpdateEnemies_body_keeps)

lemma bullet_pass_inv:
  assumes inv: "frame_inv g" and bp: "bullet_pass g t"
  shows "frame_inv t \<and> score g \<le> score t"
proof -
  have lens: "length (bullets g) = MAX_BULLETS" "length (enemies g) = MAX_ENEMIES"
    using inv by (simp_all add: frame_inv_def pools_ok_def)
  have en: "active (enemies t ! j) \<and> radius (enemies t ! j) = 15" if "j < MAX_ENEMIES" for j
  proof -
    have "enemies t ! j = enemies g ! j \<or> respawned (enemies g ! j) (enemies t ! j)"
      using bp that lens by (simp add: bullet_pass_def)
    moreover have "active (enemies g ! j) \<and> radius (enemies g ! j) = 15"
      using inv that by (simp add: frame_inv_def enemies_all_active_def)
    ultimately show ?thesis by (auto simp: respawned_def)
  qed
  have bu: "radius (bullets t ! i) = 5" if "i < MAX_BULLETS" for i
  proof -
    have "bullets t ! i = bullets g ! i \<or> bullets t ! i = (bullets g ! i)\<lparr>active := False\<rparr>"
      using bp that lens by (simp add: bullet_pass_def)
    moreover have "radius (bullets g ! i) = 5" using inv that by (simp add: frame_inv_def)
    ultimately show ?thesis by auto
  qed
  from bp obtain k where "score t = score g + 10 * int k" by (auto simp: bullet_pass_def)
  then have sc: "score g \<le> score t" by simp
  show ?thesis using inv bp en bu sc
    by (simp add: frame_inv_def pools_ok_def enemies_all_active_def player_on_screen_def Let_def
        bullet_pass_def)
qed

lemma CheckCollisions_inv:
  assumes inv: "frame_inv g" and run: "CheckCollisions rnd (g, c) = Inr (g', c')"
  shows "frame_inv g' \<and> score g \<le> score g'"
proof -
  have len: "length (enemies g) = MAX_ENEMIES" using inv by (simp add: frame_inv_def pools_ok_def)
  from run len obtain t where t: "bullet_pass g t"
    and g': "g' = t\<lparr>gameOver := gameOver g \<or>
           (\<exists>j<MAX_ENEMIES. active (enemies t ! j) \<and> collides (player g) (enemies t ! j))\<rparr>"
    by (rule CheckCollisions_result)
  show ?thesis using bullet_pass_inv [OF inv t]
    by (simp add: g' frame_inv_def pools_ok_def enemies_all_active_def player_on_screen_def Let_def)
qed

lemma InitGame_inv:
  assumes "pools_ok g" and "InitGame rnd (g, c) = (g', c')"
  shows "frame_inv g' \<and> score g' = 0 \<and> \<not> gameOver g'"
  using assms(1) InitGame_result [OF assms(2)]
  by (simp add: frame_inv_def pools_ok_def enemies_all_active_def player_on_screen_def
      Let_def SCREEN_WIDTH_def SCREEN_HEIGHT_def)

lemma main_iteration_inv:
  assumes inv: "frame_inv g" and run: "main_iteration rnd inp (g, c) = Inr (calls, g', c')"
  shows "frame_inv g' \<and> (\<not> gameOver g \<longrightarrow> score g \<le> score g')"
proof (cases "gameOver g")
  case True
  show ?thesis
  proof (cases "IsKeyPressed inp KEY_R")
    case True
    then have "InitGame rnd (g, c) = (g', c')" using run \<open>gameOver g\<close>
      by (simp add: main_iteration_def)
    then show ?thesis using InitGame_inv [of g rnd c g' c'] inv \<open>gameOver g\<close>
      by (simp add: frame_inv_def)
  next
    case False
    then have "g' = g" using run \<open>gameOver g\<close> by (simp add: main_iteration_def)
    then show ?thesis using inv \<open>gameOver g\<close> by simp
  qed
next
  case False
  define dt where "dt = GetFrameTime inp"
  define g1 where "g1 = UpdatePlayer inp g dt"
  define g2 where "g2 = (if IsMouseButtonPressed_LEFT inp then FireBullet inp g1 else g1)"
  define g4 where "g4 = UpdateEnemies (UpdateBullets g2 dt) dt"
  have cc: "CheckCollisions rnd (g4, c) = Inr (g', c')"
    using run False
    by (auto simp: main_iteration_def Let_def g4_def g2_def g1_def dt_def split: sum.splits if_splits)
  have i1: "frame_inv g1" unfolding g1_def by (rule UpdatePlayer_inv [OF inv])
  have i2: "frame_inv g2" unfolding g2_def using i1 FireBullet_inv by simp
  have i4: "frame_inv g4" unfolding g4_def by (intro UpdateEnemies_inv UpdateBullets_inv i2)
  have "score g1 = score g" unfolding g1_def using UpdatePlayer_frame [of inp g dt] by simp
  moreover have "score g2 = score g1" unfolding g2_def using FireBullet_frame [of inp g1] by simp
  moreover have "score g4 = score g2" unfolding g4_def
    using UpdateBullets_result [of g2 dt] UpdateEnemies_result [of "UpdateBullets g2 dt" dt] by simp
  ultimately show ?thesis using CheckCollisions_inv [OF i4 cc] by simp
qed

lemma main_loop_inv:
  "frame_inv (fst s) \<Longrightarrow> main_loop rnd inps s = Inr (g', c') \<Longrightarrow> frame_inv g'"
proof (induction inps arbitrary: s)
  case Nil
  then show ?case by auto
next
  case (Cons inp inps)
  show ?case
  proof (cases "WindowShouldClose inp")
    case True
    then show ?thesis using Cons.prems by auto
  next
    case False
    from Cons.prems(2) False obtain calls s1 where
      it: "main_iteration rnd inp s = Inr (calls, s1)"
      and rest: "(if IsKeyPressed inp KEY_ESCAPE then Inr s1 else main_loop rnd inps s1) = Inr (g', c')"
      by (auto split: sum.splits)
    have "frame_inv (fst s1)"
      using main_iteration_inv [of "fst s" rnd inp "snd s" calls "fst s1" "snd s1"] Cons.prems(1) it
      by simp
    then show ?thesis using rest Cons.IH [of s1] by (auto split: if_splits)
  qed
qed

lemma main_inv:
  assumes "pools_ok (fst s)" and "main rnd inps s = Inr (g', c')"
  shows "frame_inv g'"
proof -
  obtain g1 c1 where i: "InitGame rnd (fst s, snd s) = (g1, c1)"
    by (cases "InitGame rnd (fst s, snd s)")
  have "frame_inv g1" using InitGame_inv [OF assms(1) i] by simp
  then show ?thesis using main_loop_inv [of "(g1, c1)" rnd inps g' c'] assms(2) i
    by (simp add: main_def)
qed

section \<open>The examples, evaluated\<close>

lemma two_in_reach_inv: "frame_inv two_in_reach"
  by (simp add: frame_inv_def pools_ok_def player_on_screen_def enemies_all_active_def
      two_in_reach_def object_at_def nth_Cons' MAX_BULLETS_def MAX_ENEMIES_def
      SCREEN_WIDTH_def SCREEN_HEIGHT_def)

lemma two_in_reach_CheckCollisions:
  "CheckCollisions (\<lambda>n. n) (two_in_reach, 0) = Inr (two_in_reach_after, 4)"
  by code_simp

lemma first_frame_run:
  "main rnd_line [first_frame] (uninitialised, 0) = Inr (after_first_frame, 20)"
  by code_simp

section \<open>The claims\<close>

text \<open>
  C1 (the code does otherwise). The claim: a bullet that has hit an enemy is not tested
  against the enemies after it, so that one bullet consumes at most one enemy and earns at
  most 10 points in one call of \<open>CheckCollisions\<close>. The code: in \<open>two_in_reach\<close> only
  bullet 0 is active and the enemies 0 and 1 are both within the sum of the radii of it;
  one call respawns both enemies and adds 20 to the score. And in a run of \<open>main\<close>: when
  \<open>InitGame\<close> has put the ten enemies at one place, 40 away from the player, the one
  bullet fired in the first frame hits all ten of them in that frame, for 100 points.
\<close>

theorem CheckCollisions_one_bullet_two_kills:
  "CheckCollisions (\<lambda>n. n) (two_in_reach, 0) = Inr (two_in_reach_after, 4) \<and>
   map active (bullets two_in_reach) = True # replicate 19 False \<and>
   score two_in_reach_after = score two_in_reach + 20 \<and>
   position (enemies two_in_reach_after ! 0) \<noteq> position (enemies two_in_reach ! 0) \<and>
   position (enemies two_in_reach_after ! 1) \<noteq> position (enemies two_in_reach ! 1) \<and>
   main rnd_near [first_frame] (uninitialised, 0) = Inr (ten_kills, 40) \<and>
   score ten_kills = 100"
  by code_simp

text \<open>
  C2. \<open>InitGame\<close> leaves all 10 enemies active; each of the five update operations, called
  with all 10 enemies active, returns with all 10 enemies active; so it is at every frame
  of every run of \<open>main\<close>. The pool has 10 slots throughout.
\<close>

theorem enemies_all_active_always:
  "(pools_ok (fst s) \<longrightarrow> enemies_all_active (fst (InitGame rnd s))) \<and>
   (enemies_all_active game \<longrightarrow>
      enemies_all_active (UpdatePlayer inp game deltaTime) \<and>
      enemies_all_active (FireBullet inp game) \<and>
      enemies_all_active (UpdateBullets game deltaTime) \<and>
      enemies_all_active (UpdateEnemies game deltaTime)) \<and>
   (enemies_all_active game \<and> CheckCollisions rnd (game, c) = Inr (game', c') \<longrightarrow>
      enemies_all_active game') \<and>
   (pools_ok (fst s) \<and> main rnd inps s = Inr (g, c1) \<longrightarrow> enemies_all_active g)"
proof (intro conjI impI)
  assume p: "pools_ok (fst s)"
  obtain g1 c2 where i: "InitGame rnd (fst s, snd s) = (g1, c2)"
    by (cases "InitGame rnd (fst s, snd s)")
  show "enemies_all_active (fst (InitGame rnd s))"
    using InitGame_inv [OF p i] i by (simp add: frame_inv_def)
next
  assume a: "enemies_all_active game"
  show "enemies_all_active (UpdatePlayer inp game deltaTime)"
    using a UpdatePlayer_frame [of inp game deltaTime] by (simp add: enemies_all_active_def)
  show "enemies_all_active (FireBullet inp game)"
    using a FireBullet_frame [of inp game] by (simp add: enemies_all_active_def)
  show "enemies_all_active (UpdateBullets game deltaTime)"
    using a UpdateBullets_result [of game deltaTime] by (simp add: enemies_all_active_def)
  show "enemies_all_active (UpdateEnemies game deltaTime)"
    using a UpdateEnemies_result [of game deltaTime]
    by (simp add: enemies_all_active_def UpdateEnemies_body_keeps)
next
  assume "enemies_all_active game \<and> CheckCollisions rnd (game, c) = Inr (game', c')"
  then show "enemies_all_active game'"
    using enemies_all_active_CheckCollisions by blast
next
  assume "pools_ok (fst s) \<and> main rnd inps s = Inr (g, c1)"
  then have "frame_inv g" using main_inv [of s rnd inps g c1] by simp
  then show "enemies_all_active g" by (simp add: frame_inv_def)
qed

theorem enemies_all_active_always_witness:
  "pools_ok uninitialised \<and> \<not> enemies_all_active uninitialised \<and>
   enemies_all_active (fst (InitGame rnd_line (uninitialised, 0))) \<and>
   enemies_all_active two_in_reach \<and>
   enemies_all_active (UpdatePlayer first_frame two_in_reach (1 / 10)) \<and>
   enemies_all_active (FireBullet first_frame two_in_reach) \<and>
   enemies_all_active (UpdateBullets two_in_reach (1 / 10)) \<and>
   enemies_all_active (UpdateEnemies two_in_reach (1 / 10)) \<and>
   CheckCollisions (\<lambda>n. n) (two_in_reach, 0) = Inr (two_in_reach_after, 4) \<and>
   enemies_all_active two_in_reach_after \<and>
   main rnd_line [first_frame] (uninitialised, 0) = Inr (after_first_frame, 20) \<and>
   enemies_all_active after_first_frame"
proof -
  have h1: "pools_ok (fst (uninitialised, 0 :: nat))" by code_simp
  have h2: "enemies_all_active two_in_reach" using two_in_reach_inv by (simp add: frame_inv_def)
  note h3 = first_frame_run
  have h4: "\<not> enemies_all_active uninitialised"
    by (auto simp: enemies_all_active_def uninitialised_def object_at_def MAX_ENEMIES_def
        intro: exI [of _ 0])
  show ?thesis
    using enemies_all_active_always
            [where s = "(uninitialised, 0)" and rnd = rnd_line and game = two_in_reach
               and inp = first_frame and deltaTime = "1 / 10" and inps = "[first_frame]"
               and g = after_first_frame and ?c1.0 = 20]
          enemies_all_active_always
            [where rnd = "\<lambda>n. n" and game = two_in_reach and c = 0
               and game' = two_in_reach_after and c' = 4]
          h1 h2 h3 h4 two_in_reach_CheckCollisions
    by simp
qed

text \<open>
  C3. After \<open>UpdatePlayer\<close> the player's position is within
  \<open>[radius, 800 - radius] \<times> [radius, 600 - radius]\<close>, for every elapsed time, in every state
  whose player radius is at most 300 (it is 20 from \<open>InitGame\<close> on); and the bound holds
  at every frame of every run of \<open>main\<close>.
\<close>

theorem UpdatePlayer_keeps_player_on_screen:
  "(radius (player game) \<le> 300 \<longrightarrow> player_on_screen (UpdatePlayer inp game deltaTime)) \<and>
   (pools_ok (fst s) \<and> main rnd inps s = Inr (g, c) \<longrightarrow>
      radius (player g) = 20 \<and> player_on_screen g)"
proof (intro conjI impI)
  assume "radius (player game) \<le> 300"
  then show "player_on_screen (UpdatePlayer inp game deltaTime)"
    by (rule UpdatePlayer_on_screen)
next
  assume "pools_ok (fst s) \<and> main rnd inps s = Inr (g, c)"
  then have "frame_inv g" using main_inv [of s rnd inps g c] by simp
  then show "radius (player g) = 20" "player_on_screen g" by (simp_all add: frame_inv_def)
qed

theorem UpdatePlayer_keeps_player_on_screen_witness:
  "radius (player two_in_reach) \<le> 300 \<and>
   player_on_screen (UpdatePlayer diagonal_input two_in_reach 100) \<and>
   position (player (UpdatePlayer diagonal_input two_in_reach 100)) = \<lparr>vec_x = 780, vec_y = 580\<rparr> \<and>
   pools_ok uninitialised \<and>
   main rnd_line [first_frame] (uninitialised, 0) = Inr (after_first_frame, 20) \<and>
   radius (player after_first_frame) = 20 \<and> player_on_screen after_first_frame"
proof -
  have h1: "radius (player two_in_reach) \<le> 300" by code_simp
  have h2: "pools_ok (fst (uninitialised, 0 :: nat))" by code_simp
  note h3 = first_frame_run
  have h4: "position (player (UpdatePlayer diagonal_input two_in_reach 100))
              = \<lparr>vec_x = 780, vec_y = 580\<rparr>"
    by code_simp
  show ?thesis
    using UpdatePlayer_keeps_player_on_screen
            [of two_in_reach diagonal_input 100 "(uninitialised, 0)" rnd_line "[first_frame]"
                after_first_frame 20]
          h1 h2 h3 h4
    by simp
qed

text \<open>
  C4. With all 20 bullets active \<open>FireBullet\<close> returns the state as it was. Otherwise, with
  \<open>k\<close> the lowest index of an inactive bullet, it returns the state with slot \<open>k\<close> alone
  rewritten: active, at the player's position, with the aim direction times 400 as
  velocity. \<open>FireBullet\<close> is a total function into \<open>GameState\<close>: it has no error.
\<close>

theorem FireBullet_full_pool_or_first_free:
  "((\<forall>i<MAX_BULLETS. active (bullets game ! i)) \<longrightarrow> FireBullet inp game = game) \<and>
   (pools_ok game \<and> k < MAX_BULLETS \<and> \<not> active (bullets game ! k) \<and>
    (\<forall>i<k. active (bullets game ! i)) \<longrightarrow>
      FireBullet inp game =
        game\<lparr>bullets := (bullets game)
          [k := fired (direction_to (GetMousePosition inp) (position (player game))) game
                  (bullets game ! k)]\<rparr> \<and>
      active (bullets (FireBullet inp game) ! k) \<and>
      position (bullets (FireBullet inp game) ! k) = position (player game) \<and>
      (\<forall>i<MAX_BULLETS. i \<noteq> k \<longrightarrow> bullets (FireBullet inp game) ! i = bullets game ! i))"
proof (intro conjI impI)
  assume "\<forall>i<MAX_BULLETS. active (bullets game ! i)"
  then show "FireBullet inp game = game"
    using FireBullet_scan_full
      [of 0 game "direction_to (GetMousePosition inp) (position (player game))"]
    by (simp add: FireBullet_def)
next
  define d where "d = direction_to (GetMousePosition inp) (position (player game))"
  assume a: "pools_ok game \<and> k < MAX_BULLETS \<and> \<not> active (bullets game ! k) \<and>
    (\<forall>i<k. active (bullets game ! i))"
  then have eq: "FireBullet inp game =
      game\<lparr>bullets := (bullets game)[k := fired d game (bullets game ! k)]\<rparr>"
    using FireBullet_scan_first [of 0 k game d] by (simp add: FireBullet_def d_def)
  have len: "k < length (bullets game)" using a by (simp add: pools_ok_def)
  show "FireBullet inp game =
      game\<lparr>bullets := (bullets game)[k := fired d game (bullets game ! k)]\<rparr>"
    by (rule eq)
  show "active (bullets (FireBullet inp game) ! k)" using len by (simp add: eq fired_def)
  show "position (bullets (FireBullet inp game) ! k) = position (player game)"
    using len by (simp add: eq fired_def)
  show "\<forall>i<MAX_BULLETS. i \<noteq> k \<longrightarrow> bullets (FireBullet inp game) ! i = bullets game ! i"
    by (simp add: eq)
qed

theorem FireBullet_full_pool_or_first_free_witness:
  "list_all active (bullets full_pool) \<and>
   FireBullet first_frame full_pool = full_pool \<and>
   pools_ok free_slot_1 \<and> (1 :: nat) < MAX_BULLETS \<and>
   active (bullets free_slot_1 ! 0) \<and> \<not> active (bullets free_slot_1 ! 1) \<and>
   bullets (FireBullet first_frame free_slot_1) ! 1 =
     \<lparr>position = \<lparr>vec_x = 400, vec_y = 300\<rparr>, velocity = \<lparr>vec_x = - 400, vec_y = 0\<rparr>,
      radius = 5, active = True, color = YELLOW\<rparr> \<and>
   bullets (FireBullet first_frame free_slot_1) ! 0 = bullets free_slot_1 ! 0 \<and>
   bullets (FireBullet first_frame free_slot_1) ! 19 = bullets free_slot_1 ! 19 \<and>
   FireBullet first_frame free_slot_1 =
     free_slot_1\<lparr>bullets := (bullets free_slot_1)
       [1 := \<lparr>position = \<lparr>vec_x = 400, vec_y = 300\<rparr>, velocity = \<lparr>vec_x = - 400, vec_y = 0\<rparr>,
               radius = 5, active = True, color = YELLOW\<rparr>]\<rparr>"
proof -
  have h0: "list_all active (bullets full_pool)" by code_simp
  have h1: "\<forall>i<MAX_BULLETS. active (bullets full_pool ! i)"
    by (simp add: MAX_BULLETS_def full_pool_def object_at_def)
  have h2: "pools_ok free_slot_1" by code_simp
  have h3: "(1 :: nat) < MAX_BULLETS" "(0 :: nat) < MAX_BULLETS" "(19 :: nat) < MAX_BULLETS"
    by code_simp+
  have h4: "\<not> active (bullets free_slot_1 ! 1)" "active (bullets free_slot_1 ! 0)" by code_simp+
  have h5: "\<forall>i<1. active (bullets free_slot_1 ! i)"
    by (simp add: free_slot_1_def object_at_def)
  have h6: "fired (direction_to (GetMousePosition first_frame) (position (player free_slot_1)))
              free_slot_1 (bullets free_slot_1 ! 1) =
     \<lparr>position = \<lparr>vec_x = 400, vec_y = 300\<rparr>, velocity = \<lparr>vec_x = - 400, vec_y = 0\<rparr>,
      radius = 5, active = True, color = YELLOW\<rparr>"
    by code_simp
  have len: "(1 :: nat) < length (bullets free_slot_1)" by code_simp
  show ?thesis
    using FireBullet_full_pool_or_first_free [of full_pool first_frame 1]
          FireBullet_full_pool_or_first_free [of free_slot_1 first_frame 1]
          h0 h1 h2 h3 h4 h5 h6 len
    by simp
qed

text \<open>
  C5. A bullet fired while the aim point is the player's position, the player being in
  the field, has the velocity (0, 0); after any sequence of calls of \<open>UpdateBullets\<close>,
  with any elapsed times, it is still active, at the position where it was fired, with
  the velocity (0, 0).
\<close>

theorem bullet_at_rest_stays:
  "pools_ok game \<and> GetMousePosition inp = position (player game) \<and>
   0 \<le> vec_x (position (player game)) \<and>
   vec_x (position (player game)) \<le> real_of_int SCREEN_WIDTH \<and>
   0 \<le> vec_y (position (player game)) \<and>
   vec_y (position (player game)) \<le> real_of_int SCREEN_HEIGHT \<and>
   k < MAX_BULLETS \<and> \<not> active (bullets game ! k) \<and> (\<forall>i<k. active (bullets game ! i)) \<longrightarrow>
     (let b = bullets (fold (\<lambda>dt g. UpdateBullets g dt) dts (FireBullet inp game)) ! k
      in velocity b = \<lparr>vec_x = 0, vec_y = 0\<rparr> \<and> active b \<and>
         position b = position (player game))"
proof
  assume a: "pools_ok game \<and> GetMousePosition inp = position (player game) \<and>
   0 \<le> vec_x (position (player game)) \<and>
   vec_x (position (player game)) \<le> real_of_int SCREEN_WIDTH \<and>
   0 \<le> vec_y (position (player game)) \<and>
   vec_y (position (player game)) \<le> real_of_int SCREEN_HEIGHT \<and>
   k < MAX_BULLETS \<and> \<not> active (bullets game ! k) \<and> (\<forall>i<k. active (bullets game ! i))"
  define b where "b = fired \<lparr>vec_x = 0, vec_y = 0\<rparr> game (bullets game ! k)"
  have len: "length (bullets game) = MAX_BULLETS" using a by (simp add: pools_ok_def)
  have eq: "FireBullet inp game = game\<lparr>bullets := (bullets game)[k := b]\<rparr>"
    using a FireBullet_scan_first [of 0 k game "\<lparr>vec_x = 0, vec_y = 0\<rparr>"]
    by (simp add: FireBullet_def direction_to_self b_def)
  have b: "active b" "velocity b = \<lparr>vec_x = 0, vec_y = 0\<rparr>" "position b = position (player game)"
    by (simp_all add: b_def fired_def)
  have "bullets (fold (\<lambda>dt g. UpdateBullets g dt) dts (FireBullet inp game)) ! k = b"
    using UpdateBullets_at_rest [of "FireBullet inp game" k b dts] a len b by (simp add: eq)
  then show "let b = bullets (fold (\<lambda>dt g. UpdateBullets g dt) dts (FireBullet inp game)) ! k
      in velocity b = \<lparr>vec_x = 0, vec_y = 0\<rparr> \<and> active b \<and>
         position b = position (player game)"
    using b by simp
qed

theorem bullet_at_rest_stays_witness:
  "pools_ok free_slot_1 \<and> GetMousePosition aim_at_player = position (player free_slot_1) \<and>
   position (player free_slot_1) = \<lparr>vec_x = 400, vec_y = 300\<rparr> \<and>
   \<not> active (bullets free_slot_1 ! 1) \<and> active (bullets free_slot_1 ! 0) \<and>
   (let b = bullets (fold (\<lambda>dt g. UpdateBullets g dt) [1 / 60, 5, 1000]
              (FireBullet aim_at_player free_slot_1)) ! 1
    in velocity b = \<lparr>vec_x = 0, vec_y = 0\<rparr> \<and> active b \<and>
       position b = \<lparr>vec_x = 400, vec_y = 300\<rparr>) \<and>
   bullets (UpdateBullets (FireBullet aim_at_player free_slot_1) 1000) ! 1
     = \<lparr>position = \<lparr>vec_x = 400, vec_y = 300\<rparr>, velocity = \<lparr>vec_x = 0, vec_y = 0\<rparr>,
        radius = 5, active = True, color = YELLOW\<rparr>"
proof -
  have h1: "pools_ok free_slot_1" by code_simp
  have h2: "GetMousePosition aim_at_player = position (player free_slot_1)" by code_simp
  have h3: "\<not> active (bullets free_slot_1 ! 1)" by code_simp
  have h4: "\<forall>i<1. active (bullets free_slot_1 ! i)"
    by (simp add: free_slot_1_def object_at_def)
  have h5: "position (player free_slot_1) = \<lparr>vec_x = 400, vec_y = 300\<rparr>" by code_simp
  have h6: "(1 :: nat) < MAX_BULLETS" "active (bullets free_slot_1 ! 0)" by code_simp+
  have h7: "bullets (UpdateBullets (FireBullet aim_at_player free_slot_1) 1000) ! 1
     = \<lparr>position = \<lparr>vec_x = 400, vec_y = 300\<rparr>, velocity = \<lparr>vec_x = 0, vec_y = 0\<rparr>,
        radius = 5, active = True, color = YELLOW\<rparr>"
    by code_simp
  show ?thesis
    using bullet_at_rest_stays [of free_slot_1 aim_at_player 1 "[1 / 60, 5, 1000]"]
          h1 h2 h3 h4 h5 h6 h7
    by (simp add: SCREEN_WIDTH_def SCREEN_HEIGHT_def)
qed

text \<open>
  C6. A hit puts the struck enemy at the position that the two draws determine: the edge
  is the draw from 0..3 and the free coordinate the draw from 0..800 (top and bottom) or
  0..600 (right and left), so the position is in exactly one of the four bands; and the
  enemy is active. When \<open>CheckCollisions\<close> returns, every enemy is as it was on entry, or
  is in exactly one of the four bands and active. How the draws are distributed is the
  generator's matter: the code adds nothing to it.
\<close>

theorem hit_enemy_respawns_in_edge_band:
  "(pools_ok game \<and> j < MAX_ENEMIES \<and> bullet_hits_enemy rnd i j (game, c) = Inr (gameh, ch) \<longrightarrow>
      (\<exists>edge v. GetRandomValue rnd 0 3 c = (edge, Suc c) \<and>
         GetRandomValue rnd 0 (if edge = 0 \<or> edge = 2 then SCREEN_WIDTH else SCREEN_HEIGHT) (Suc c)
           = (v, ch) \<and>
         position (enemies gameh ! j) = respawn_position edge v \<and>
         in_band edge (position (enemies gameh ! j))) \<and>
      (\<exists>!edge. in_band edge (position (enemies gameh ! j))) \<and>
      active (enemies gameh ! j)) \<and>
   (pools_ok game \<and> CheckCollisions rnd (game, c) = Inr (game', c') \<longrightarrow>
      (\<forall>j<MAX_ENEMIES.
         enemies game' ! j = enemies game ! j \<or>
         (\<exists>!edge. in_band edge (position (enemies game' ! j))) \<and> active (enemies game' ! j)))"
proof (intro conjI impI)
  assume a: "pools_ok game \<and> j < MAX_ENEMIES \<and>
    bullet_hits_enemy rnd i j (game, c) = Inr (gameh, ch)"
  then have j: "j < length (enemies game)" by (simp add: pools_ok_def)
  from a j obtain edge v where ev:
    "GetRandomValue rnd 0 3 c = (edge, Suc c)"
    "GetRandomValue rnd 0 (if edge = 0 \<or> edge = 2 then SCREEN_WIDTH else SCREEN_HEIGHT) (Suc c)
       = (v, ch)"
    "in_band edge (respawn_position edge v)"
    "gameh = game\<lparr>bullets := (bullets game)[i := (bullets game ! i)\<lparr>active := False\<rparr>],
            enemies := (enemies game)
              [j := (enemies game ! j)\<lparr>position := respawn_position edge v, active := True\<rparr>],
            score := score game + 10\<rparr>"
    using bullet_hits_enemy_result [of rnd i j game c gameh ch] by blast
  have pos: "position (enemies gameh ! j) = respawn_position edge v" using j by (simp add: ev(4))
  show "\<exists>edge v. GetRandomValue rnd 0 3 c = (edge, Suc c) \<and>
         GetRandomValue rnd 0 (if edge = 0 \<or> edge = 2 then SCREEN_WIDTH else SCREEN_HEIGHT) (Suc c)
           = (v, ch) \<and>
         position (enemies gameh ! j) = respawn_position edge v \<and>
         in_band edge (position (enemies gameh ! j))"
    using ev(1,2,3) pos by auto
  show "\<exists>!edge. in_band edge (position (enemies gameh ! j))"
    using ev(3) pos in_band_unique by auto
  show "active (enemies gameh ! j)" using j by (simp add: ev(4))
next
  assume a: "pools_ok game \<and> CheckCollisions rnd (game, c) = Inr (game', c')"
  then have len: "length (enemies game) = MAX_ENEMIES" by (simp add: pools_ok_def)
  from a len obtain t where t: "bullet_pass game t"
    and g': "game' = t\<lparr>gameOver := gameOver game \<or>
           (\<exists>j<MAX_ENEMIES. active (enemies t ! j) \<and> collides (player game) (enemies t ! j))\<rparr>"
    using CheckCollisions_result [of rnd game c game' c'] by blast
  show "\<forall>j<MAX_ENEMIES.
         enemies game' ! j = enemies game ! j \<or>
         (\<exists>!edge. in_band edge (position (enemies game' ! j))) \<and> active (enemies game' ! j)"
  proof (intro allI impI)
    fix j assume "j < MAX_ENEMIES"
    then have "enemies t ! j = enemies game ! j \<or> respawned (enemies game ! j) (enemies t ! j)"
      using t len by (simp add: bullet_pass_def)
    then show "enemies game' ! j = enemies game ! j \<or>
         (\<exists>!edge. in_band edge (position (enemies game' ! j))) \<and> active (enemies game' ! j)"
      by (auto simp: g' respawned_def)
  qed
qed

theorem hit_enemy_respawns_in_edge_band_witness:
  "pools_ok two_in_reach \<and>
   bullet_hits_enemy (\<lambda>n. n) 0 1 (two_in_reach, 5) =
     Inr (two_in_reach
            \<lparr>bullets := (bullets two_in_reach)[0 := object_at 100 100 5 False YELLOW],
             enemies := (enemies two_in_reach)[1 := object_at 850 6 15 True RED],
             score := 10\<rparr>, 7) \<and>
   in_band 1 \<lparr>vec_x = 850, vec_y = 6\<rparr> \<and>
   CheckCollisions (\<lambda>n. n) (two_in_reach, 0) = Inr (two_in_reach_after, 4) \<and>
   enemies two_in_reach_after ! 0 \<noteq> enemies two_in_reach ! 0 \<and>
   (\<exists>!edge. in_band edge (position (enemies two_in_reach_after ! 0))) \<and>
   active (enemies two_in_reach_after ! 0) \<and>
   enemies two_in_reach_after ! 2 = enemies two_in_reach ! 2"
proof -
  define hit where "hit = two_in_reach
            \<lparr>bullets := (bullets two_in_reach)[0 := object_at 100 100 5 False YELLOW],
             enemies := (enemies two_in_reach)[1 := object_at 850 6 15 True RED],
             score := 10\<rparr>"
  have h1: "pools_ok two_in_reach" using two_in_reach_inv by (simp add: frame_inv_def)
  have h2: "bullet_hits_enemy (\<lambda>n. n) 0 1 (two_in_reach, 5) = Inr (hit, 7)"
    unfolding hit_def by code_simp
  have h3: "in_band 1 \<lparr>vec_x = 850, vec_y = 6\<rparr>" by code_simp
  have h4: "(1 :: nat) < MAX_ENEMIES" "(0 :: nat) < MAX_ENEMIES" by code_simp+
  have h5: "enemies two_in_reach_after ! 0 \<noteq> enemies two_in_reach ! 0"
    "enemies two_in_reach_after ! 2 = enemies two_in_reach ! 2"
    by code_simp+
  have "active (enemies hit ! 1)"
    using hit_enemy_respawns_in_edge_band
            [where game = two_in_reach and rnd = "\<lambda>n. n" and c = 5 and j = 1 and i = 0
               and gameh = hit and ch = 7]
          h1 h2 h4
    by simp
  have "\<forall>j<MAX_ENEMIES.
      enemies two_in_reach_after ! j = enemies two_in_reach ! j \<or>
      (\<exists>!edge. in_band edge (position (enemies two_in_reach_after ! j))) \<and>
      active (enemies two_in_reach_after ! j)"
    using hit_enemy_respawns_in_edge_band
            [where game = two_in_reach and rnd = "\<lambda>n. n" and c = 0
               and game' = two_in_reach_after and c' = 4]
          h1 two_in_reach_CheckCollisions
    by simp
  then have "enemies two_in_reach_after ! 0 = enemies two_in_reach ! 0 \<or>
      (\<exists>!edge. in_band edge (position (enemies two_in_reach_after ! 0))) \<and>
      active (enemies two_in_reach_after ! 0)"
    using h4(2) by blast
  then have "(\<exists>!edge. in_band edge (position (enemies two_in_reach_after ! 0))) \<and>
      active (enemies two_in_reach_after ! 0)"
    using h5(1) by blast
  then show ?thesis
    using h1 h2 h3 h5 two_in_reach_CheckCollisions unfolding hit_def by simp
qed

text \<open>
  C7. The score is 0 after \<open>InitGame\<close>; \<open>UpdatePlayer\<close>, \<open>FireBullet\<close>, \<open>UpdateBullets\<close>
  and \<open>UpdateEnemies\<close> leave it as it is; a hit adds exactly 10; a call of
  \<open>CheckCollisions\<close> that returns adds 10 times a number of hits, so the score does not
  decrease, and it returns whenever the score is at most \<open>INT_MAX - 2000\<close> on entry; and
  the score is not negative at any frame of any run of \<open>main\<close>.
\<close>

theorem score_never_decreases:
  "score (fst (InitGame rnd s)) = 0 \<and>
   score (UpdatePlayer inp game deltaTime) = score game \<and>
   score (FireBullet inp game) = score game \<and>
   score (UpdateBullets game deltaTime) = score game \<and>
   score (UpdateEnemies game deltaTime) = score game \<and>
   (bullet_hits_enemy rnd i j (game, c) = Inr (gameh, ch) \<longrightarrow> score gameh = score game + 10) \<and>
   (pools_ok game \<and> CheckCollisions rnd (game, c) = Inr (game', c') \<longrightarrow>
      score game \<le> score game' \<and> (\<exists>k. score game' = score game + 10 * int k)) \<and>
   (score game \<le> INT_MAX - 2000 \<longrightarrow> (\<exists>s'. CheckCollisions rnd (game, c) = Inr s')) \<and>
   (pools_ok (fst s) \<and> main rnd inps s = Inr (g, cg) \<longrightarrow> 0 \<le> score g)"
proof (intro conjI impI)
  obtain g1 c2 where i: "InitGame rnd (fst s, snd s) = (g1, c2)"
    by (cases "InitGame rnd (fst s, snd s)")
  show "score (fst (InitGame rnd s)) = 0" using InitGame_result [OF i] i by simp
  show "score (UpdatePlayer inp game deltaTime) = score game"
    using UpdatePlayer_frame [of inp game deltaTime] by simp
  show "score (FireBullet inp game) = score game" using FireBullet_frame [of inp game] by simp
  show "score (UpdateBullets game deltaTime) = score game"
    using UpdateBullets_result [of game deltaTime] by simp
  show "score (UpdateEnemies game deltaTime) = score game"
    using UpdateEnemies_result [of game deltaTime] by simp
next
  assume h: "bullet_hits_enemy rnd i j (game, c) = Inr (gameh, ch)"
  then have "score game \<le> INT_MAX - 10"
    by (auto simp: bullet_hits_enemy_def Let_def split: if_splits)
  then show "score gameh = score game + 10"
    using bullet_hits_enemy_defined [of game rnd i j c] h by auto
next
  assume a: "pools_ok game \<and> CheckCollisions rnd (game, c) = Inr (game', c')"
  then have len: "length (enemies game) = MAX_ENEMIES" by (simp add: pools_ok_def)
  from a len obtain t where t: "bullet_pass game t"
    and g': "game' = t\<lparr>gameOver := gameOver game \<or>
           (\<exists>j<MAX_ENEMIES. active (enemies t ! j) \<and> collides (player game) (enemies t ! j))\<rparr>"
    using CheckCollisions_result [of rnd game c game' c'] by blast
  from t obtain k where k: "score t = score game + 10 * int k" by (auto simp: bullet_pass_def)
  show "\<exists>k. score game' = score game + 10 * int k" using k by (auto simp: g')
  show "score game \<le> score game'" using k by (simp add: g')
next
  assume "score game \<le> INT_MAX - 2000"
  then show "\<exists>s'. CheckCollisions rnd (game, c) = Inr s'" by (rule CheckCollisions_defined)
next
  assume "pools_ok (fst s) \<and> main rnd inps s = Inr (g, cg)"
  then have "frame_inv g" using main_inv [of s rnd inps g cg] by simp
  then show "0 \<le> score g" by (simp add: frame_inv_def)
qed

theorem score_never_decreases_witness:
  "score uninitialised = 7 \<and> score (fst (InitGame rnd_line (uninitialised, 0))) = 0 \<and>
   bullet_hits_enemy (\<lambda>n. n) 0 1 (lost, 5) =
     Inr (lost
            \<lparr>bullets := (bullets lost)[0 := object_at 100 100 5 False YELLOW],
             enemies := (enemies lost)[1 := object_at 850 6 15 True RED],
             score := 60\<rparr>, 7) \<and>
   score lost = 50 \<and>
   pools_ok two_in_reach \<and> score two_in_reach \<le> INT_MAX - 2000 \<and>
   CheckCollisions (\<lambda>n. n) (two_in_reach, 0) = Inr (two_in_reach_after, 4) \<and>
   score two_in_reach = 0 \<and> score two_in_reach_after = 20 \<and>
   pools_ok uninitialised \<and>
   main rnd_line [first_frame] (uninitialised, 0) = Inr (after_first_frame, 20) \<and>
   0 \<le> score after_first_frame"
proof -
  have h1: "pools_ok (fst (uninitialised, 0 :: nat))" "pools_ok uninitialised" by code_simp+
  have h2: "pools_ok two_in_reach" using two_in_reach_inv by (simp add: frame_inv_def)
  note h3 = first_frame_run
  have h4: "bullet_hits_enemy (\<lambda>n. n) 0 1 (lost, 5) =
     Inr (lost
            \<lparr>bullets := (bullets lost)[0 := object_at 100 100 5 False YELLOW],
             enemies := (enemies lost)[1 := object_at 850 6 15 True RED],
             score := 60\<rparr>, 7)"
    by code_simp
  have h5: "score uninitialised = 7" "score lost = 50" "score two_in_reach = 0"
    "score two_in_reach_after = 20" "score two_in_reach \<le> INT_MAX - 2000"
    by code_simp+
  show ?thesis
    using score_never_decreases
            [where s = "(uninitialised, 0)" and rnd = rnd_line and inps = "[first_frame]"
               and g = after_first_frame and cg = 20]
          score_never_decreases
            [where rnd = "\<lambda>n. n" and game = two_in_reach and c = 0
               and game' = two_in_reach_after and c' = 4]
          score_never_decreases
            [where rnd = "\<lambda>n. n" and game = lost and c = 5 and i = 0 and j = 1
               and gameh = "lost
            \<lparr>bullets := (bullets lost)[0 := object_at 100 100 5 False YELLOW],
             enemies := (enemies lost)[1 := object_at 850 6 15 True RED],
             score := 60\<rparr>" and ch = 7]
          h1 h2 h3 h4 h5 two_in_reach_CheckCollisions
    by simp
qed

text \<open>
  C8, as it is stated, fails. With the factor 0.70710678 the claim is
  \<open>diagonal_scaled_by 0.70710678\<close>; but with the keys for right and down held for a tenth
  of a second the player moves from (400, 300) to (414.14, 314.14), which is 0.707 times
  20 along each axis.
\<close>

theorem diagonal_scaled_by_counterexample:
  "\<not> diagonal_scaled_by 0.70710678 diagonal_input two_in_reach (1 / 10)"
proof
  assume "diagonal_scaled_by 0.70710678 diagonal_input two_in_reach (1 / 10)"
  moreover have "accumulated_movement diagonal_input = \<lparr>vec_x = 1, vec_y = 1\<rparr>"
    by (simp add: accumulated_movement_def diagonal_input_def frame_input_def)
  moreover have "position (player (UpdatePlayer diagonal_input two_in_reach (1 / 10)))
      = \<lparr>vec_x = 41414 / 100, vec_y = 31414 / 100\<rparr>"
    by code_simp
  ultimately show False
    by (simp add: diagonal_scaled_by_def two_in_reach_def object_at_def keep_on_screen_def
        SCREEN_WIDTH_def SCREEN_HEIGHT_def PLAYER_SPEED_def)
qed

text \<open>
  C8 (corrected). In \<open>UpdatePlayer\<close>, when both components of the accumulated movement
  are non-zero, each is scaled by the constant 0.707 before it is multiplied by the speed
  200 and the elapsed time (and the position is then kept on the screen).
\<close>

theorem UpdatePlayer_diagonal_scaled_by_0707:
  "diagonal_scaled_by 0.707 inp game deltaTime"
  by (simp add: diagonal_scaled_by_def UpdatePlayer_def Let_def)

theorem UpdatePlayer_diagonal_scaled_by_0707_witness:
  "vec_x (accumulated_movement diagonal_input) \<noteq> 0 \<and>
   vec_y (accumulated_movement diagonal_input) \<noteq> 0 \<and>
   position (player (UpdatePlayer diagonal_input two_in_reach (1 / 10))) =
     \<lparr>vec_x = 400 + 1 * 0.707 * 200 * (1 / 10), vec_y = 300 + 1 * 0.707 * 200 * (1 / 10)\<rparr>"
proof -
  have m: "accumulated_movement diagonal_input = \<lparr>vec_x = 1, vec_y = 1\<rparr>"
    by (simp add: accumulated_movement_def diagonal_input_def frame_input_def)
  show ?thesis
    using UpdatePlayer_diagonal_scaled_by_0707 [of diagonal_input two_in_reach "1 / 10"] m
    by (simp add: diagonal_scaled_by_def two_in_reach_def object_at_def keep_on_screen_def
        SCREEN_WIDTH_def SCREEN_HEIGHT_def PLAYER_SPEED_def)
qed

text \<open>
  C9. An iteration of the frame loop that starts with the game-over flag set invokes none
  of the five update operations: without the restart key it invokes nothing and returns
  the state (and the random source) as they were; with it, it invokes \<open>InitGame\<close> alone,
  after which the flag is false and the score is 0.
\<close>

theorem main_iteration_game_over:
  "gameOver game \<longrightarrow>
     main_iteration rnd inp (game, c) =
       (if IsKeyPressed inp KEY_R then Inr ([Call_InitGame], InitGame rnd (game, c))
        else Inr ([], (game, c))) \<and>
     \<not> gameOver (fst (InitGame rnd (game, c))) \<and> score (fst (InitGame rnd (game, c))) = 0"
proof
  assume go: "gameOver game"
  obtain g' c' where i: "InitGame rnd (game, c) = (g', c')" by (cases "InitGame rnd (game, c)")
  have "\<not> gameOver g' \<and> score g' = 0" using InitGame_result [OF i] by simp
  then show "main_iteration rnd inp (game, c) =
       (if IsKeyPressed inp KEY_R then Inr ([Call_InitGame], InitGame rnd (game, c))
        else Inr ([], (game, c))) \<and>
     \<not> gameOver (fst (InitGame rnd (game, c))) \<and> score (fst (InitGame rnd (game, c))) = 0"
    using go i by (simp add: main_iteration_def)
qed

theorem main_iteration_game_over_witness:
  "gameOver lost \<and> score lost = 50 \<and>
   main_iteration rnd_line first_frame (lost, 3) = Inr ([], (lost, 3)) \<and>
   main_iteration rnd_line restart_input (lost, 3) =
     Inr ([Call_InitGame], InitGame rnd_line (lost, 3)) \<and>
   \<not> gameOver (fst (InitGame rnd_line (lost, 3))) \<and>
   score (fst (InitGame rnd_line (lost, 3))) = 0"
proof -
  have h: "gameOver lost" "score lost = 50" by code_simp+
  have k: "\<not> IsKeyPressed first_frame KEY_R" "IsKeyPressed restart_input KEY_R"
    by (simp_all add: first_frame_def restart_input_def frame_input_def)
  show ?thesis
    using main_iteration_game_over [of lost rnd_line first_frame 3]
          main_iteration_game_over [of lost rnd_line restart_input 3] h k
    by simp
qed

text \<open>
  C10. With the player within [20, 780] x [20, 580], of radius 20, and the enemies of
  radius 15: a position in an edge band is at least 70 away from the player; and when
  \<open>CheckCollisions\<close> returns, every enemy it has changed is at least 70 away from the
  player and does not collide with it, so that the game-over flag, when the call sets it,
  is set on account of an enemy that the call has left as it was.
\<close>

theorem respawned_enemy_never_ends_game:
  "(in_band edge p \<and> 20 \<le> vec_x q \<and> vec_x q \<le> 780 \<and> 20 \<le> vec_y q \<and> vec_y q \<le> 580 \<longrightarrow>
      70 \<le> distance q p) \<and>
   (pools_ok game \<and> radius (player game) = 20 \<and> player_on_screen game \<and>
    (\<forall>j<MAX_ENEMIES. radius (enemies game ! j) = 15) \<and>
    CheckCollisions rnd (game, c) = Inr (game', c') \<longrightarrow>
      (\<forall>j<MAX_ENEMIES. enemies game' ! j \<noteq> enemies game ! j \<longrightarrow>
         70 \<le> distance (position (player game')) (position (enemies game' ! j)) \<and>
         \<not> collides (player game') (enemies game' ! j)) \<and>
      (gameOver game' \<longleftrightarrow>
         gameOver game \<or>
         (\<exists>j<MAX_ENEMIES. active (enemies game' ! j) \<and> collides (player game') (enemies game' ! j))) \<and>
      (gameOver game' \<and> \<not> gameOver game \<longrightarrow>
         (\<exists>j<MAX_ENEMIES. enemies game' ! j = enemies game ! j \<and>
            collides (player game) (enemies game ! j))))"
proof (intro conjI impI)
  assume "in_band edge p \<and> 20 \<le> vec_x q \<and> vec_x q \<le> 780 \<and> 20 \<le> vec_y q \<and> vec_y q \<le> 580"
  then show "70 \<le> distance q p" using in_band_far_from_player by blast
next
  assume a: "pools_ok game \<and> radius (player game) = 20 \<and> player_on_screen game \<and>
    (\<forall>j<MAX_ENEMIES. radius (enemies game ! j) = 15) \<and>
    CheckCollisions rnd (game, c) = Inr (game', c')"
  then have len: "length (enemies game) = MAX_ENEMIES" by (simp add: pools_ok_def)
  from a len obtain t where t: "bullet_pass game t"
    and g': "game' = t\<lparr>gameOver := gameOver game \<or>
           (\<exists>j<MAX_ENEMIES. active (enemies t ! j) \<and> collides (player game) (enemies t ! j))\<rparr>"
    using CheckCollisions_result [of rnd game c game' c'] by blast
  have pl: "player game' = player game" "enemies game' = enemies t"
    using t by (simp_all add: g' bullet_pass_def)
  have q: "20 \<le> vec_x (position (player game))" "vec_x (position (player game)) \<le> 780"
    "20 \<le> vec_y (position (player game))" "vec_y (position (player game)) \<le> 580"
    using a by (simp_all add: player_on_screen_def Let_def SCREEN_WIDTH_def SCREEN_HEIGHT_def)
  have changed: "70 \<le> distance (position (player game)) (position (enemies t ! j)) \<and>
      \<not> collides (player game) (enemies t ! j)"
    if j: "j < MAX_ENEMIES" and ne: "enemies t ! j \<noteq> enemies game ! j" for j
  proof -
    have "respawned (enemies game ! j) (enemies t ! j)"
      using t j ne len by (auto simp: bullet_pass_def)
    then obtain e where e: "in_band e (position (enemies t ! j))"
      and r: "radius (enemies t ! j) = radius (enemies game ! j)"
      by (auto simp: respawned_def)
    have far: "70 \<le> distance (position (player game)) (position (enemies t ! j))"
      by (rule in_band_far_from_player [OF e q])
    have "radius (player game) + radius (enemies t ! j) = 35" using a j r by simp
    then show ?thesis using far by (simp add: collides_def)
  qed
  show "\<forall>j<MAX_ENEMIES. enemies game' ! j \<noteq> enemies game ! j \<longrightarrow>
         70 \<le> distance (position (player game')) (position (enemies game' ! j)) \<and>
         \<not> collides (player game') (enemies game' ! j)"
    using changed by (simp add: pl)
  show go: "gameOver game' \<longleftrightarrow>
         gameOver game \<or>
         (\<exists>j<MAX_ENEMIES. active (enemies game' ! j) \<and> collides (player game') (enemies game' ! j))"
    by (simp add: pl) (simp add: g')
  show "\<exists>j<MAX_ENEMIES. enemies game' ! j = enemies game ! j \<and>
            collides (player game) (enemies game ! j)"
    if "gameOver game' \<and> \<not> gameOver game"
  proof -
    from that go obtain j where j: "j < MAX_ENEMIES" "collides (player game') (enemies game' ! j)"
      by blast
    then have "enemies t ! j = enemies game ! j" using changed [of j] by (auto simp: pl)
    then show ?thesis using j by (auto simp: pl)
  qed
qed

theorem respawned_enemy_never_ends_game_witness:
  "in_band 0 \<lparr>vec_x = 1, vec_y = - 50\<rparr> \<and>
   70 \<le> distance \<lparr>vec_x = 400, vec_y = 300\<rparr> \<lparr>vec_x = 1, vec_y = - 50\<rparr> \<and>
   pools_ok enemy_on_player \<and> radius (player enemy_on_player) = 20 \<and>
   player_on_screen enemy_on_player \<and>
   map radius (enemies enemy_on_player) = replicate 10 15 \<and>
   collides (player enemy_on_player) (enemies enemy_on_player ! 0) \<and>
   CheckCollisions (\<lambda>n. n) (enemy_on_player, 0) = Inr (enemy_on_player_after, 2) \<and>
   enemies enemy_on_player_after ! 0 \<noteq> enemies enemy_on_player ! 0 \<and>
   \<not> collides (player enemy_on_player_after) (enemies enemy_on_player_after ! 0) \<and>
   \<not> gameOver enemy_on_player_after"
proof -
  have h1: "in_band 0 \<lparr>vec_x = 1, vec_y = - 50\<rparr>" by code_simp
  have h2: "pools_ok enemy_on_player" "radius (player enemy_on_player) = 20"
    "player_on_screen enemy_on_player"
    "collides (player enemy_on_player) (enemies enemy_on_player ! 0)"
    "enemies enemy_on_player_after ! 0 \<noteq> enemies enemy_on_player ! 0"
    "\<not> gameOver enemy_on_player_after" "(0 :: nat) < MAX_ENEMIES"
    by code_simp+
  have h3: "\<forall>j<MAX_ENEMIES. radius (enemies enemy_on_player ! j) = 15"
    by (simp add: enemy_on_player_def object_at_def nth_Cons' MAX_ENEMIES_def)
  have h4: "CheckCollisions (\<lambda>n. n) (enemy_on_player, 0) = Inr (enemy_on_player_after, 2)"
    by code_simp
  have h5: "map radius (enemies enemy_on_player) = replicate 10 15" by code_simp
  show ?thesis
    using respawned_enemy_never_ends_game
            [where edge = 0 and p = "\<lparr>vec_x = 1, vec_y = - 50\<rparr>"
               and q = "\<lparr>vec_x = 400, vec_y = 300\<rparr>" and game = enemy_on_player
               and rnd = "\<lambda>n. n" and c = 0 and game' = enemy_on_player_after and c' = 2]
          h1 h2 h3 h4 h5
    by simp
qed

end
